theory Spec2Isabelle
  imports Main "HOL-Library.AList" "HOL-Library.Product_Lexorder"
begin

section \<open>Data model (shared/schema.ts)\<close>

text \<open>
  The four tables of the schema. A \<^verbatim>\<open>serial\<close> id is a natural number, a \<^verbatim>\<open>text\<close> column a
  string, and a nullable \<^verbatim>\<open>timestamp\<close> column (\<^verbatim>\<open>Date | null\<close> on the TypeScript side) an
  optional number of milliseconds. Field names are those of the schema, prefixed where two
  tables share a column name.
\<close>

record user =
  u_id :: nat
  u_username :: string
  u_isAdmin :: bool
  u_createdAt :: "nat option"

record message =
  m_id :: nat
  m_roomId :: string
  senderUsername :: string
  receiverUsername :: string
  m_message :: string
  timestamp :: "nat option"
  isRead :: bool

record onlineUser =
  o_id :: nat
  o_username :: string
  o_roomId :: string
  socketId :: string
  joinedAt :: "nat option"
  o_isAdmin :: bool

record helpRequest =
  h_id :: nat
  h_username :: string
  h_roomId :: string
  h_message :: string
  status :: string
  h_createdAt :: "nat option"

text \<open>The insert schemas: the picked columns only; \<^verbatim>\<open>status\<close> has a default and is optional.\<close>

record insertUser =
  iu_username :: string
  iu_isAdmin :: bool

record insertMessage =
  im_roomId :: string
  im_senderUsername :: string
  im_receiverUsername :: string
  im_message :: string

record insertOnlineUser =
  io_username :: string
  io_roomId :: string
  io_socketId :: string
  io_isAdmin :: bool

record insertHelpRequest =
  ih_username :: string
  ih_roomId :: string
  ih_message :: string
  ih_status :: "string option"

text \<open>One entry of the admin's conversation list, as \<^verbatim>\<open>getAllUsersWithMessages\<close> returns it.\<close>

record conversation =
  c_username :: string
  c_roomId :: string
  lastMessage :: "message option"
  unreadCount :: nat

text \<open>The database: the rows of each table in insertion order, and the serial counters.\<close>

record db =
  users :: "user list"
  messages :: "message list"
  onlineUsers :: "onlineUser list"
  helpRequests :: "helpRequest list"
  users_seq :: nat
  messages_seq :: nat
  onlineUsers_seq :: nat
  helpRequests_seq :: nat

section \<open>Storage (server/storage.ts, class DatabaseStorage)\<close>

text \<open>
  \<^verbatim>\<open>ORDER BY timestamp ASC\<close>: PostgreSQL puts NULL last in ascending order. The sort is the
  stable insertion sort of the library; PostgreSQL promises no order among equal timestamps,
  and no statement below depends on one.
\<close>

definition ts_key :: "message \<Rightarrow> nat \<times> nat" where
  "ts_key m = (case timestamp m of None \<Rightarrow> (1, 0) | Some t \<Rightarrow> (0, t))"

definition orderBy_asc_timestamp :: "message list \<Rightarrow> message list" where
  "orderBy_asc_timestamp rows = sort_key ts_key rows"

definition getUserByUsername :: "db \<Rightarrow> string \<Rightarrow> user option" where
  "getUserByUsername d name = find (\<lambda>u. u_username u = name) (users d)"

text \<open>\<^verbatim>\<open>users.username\<close> is UNIQUE: the insert is rejected when the name is taken.\<close>

definition createUser :: "db \<Rightarrow> nat \<Rightarrow> insertUser \<Rightarrow> (db \<times> user) option" where
  "createUser d now ins =
     (if iu_username ins \<in> u_username ` set (users d) then None
      else let u = \<lparr>u_id = users_seq d, u_username = iu_username ins,
                     u_isAdmin = iu_isAdmin ins, u_createdAt = Some now\<rparr>
           in Some (d\<lparr>users := users d @ [u], users_seq := users_seq d + 1\<rparr>, u))"

definition getMessagesByRoom :: "db \<Rightarrow> string \<Rightarrow> message list" where
  "getMessagesByRoom d room =
     orderBy_asc_timestamp (filter (\<lambda>m. m_roomId m = room) (messages d))"

definition getMessagesBetweenUsers :: "db \<Rightarrow> string \<Rightarrow> string \<Rightarrow> message list" where
  "getMessagesBetweenUsers d user1 user2 =
     orderBy_asc_timestamp
       (filter (\<lambda>m. (senderUsername m = user1 \<and> receiverUsername m = user2) \<or>
                    (senderUsername m = user2 \<and> receiverUsername m = user1)) (messages d))"

definition createMessage :: "db \<Rightarrow> nat \<Rightarrow> insertMessage \<Rightarrow> db \<times> message" where
  "createMessage d now ins =
     (let m = \<lparr>m_id = messages_seq d, m_roomId = im_roomId ins,
                senderUsername = im_senderUsername ins,
                receiverUsername = im_receiverUsername ins,
                m_message = im_message ins, timestamp = Some now, isRead = False\<rparr>
      in (d\<lparr>messages := messages d @ [m], messages_seq := messages_seq d + 1\<rparr>, m))"

definition markMessagesAsRead :: "db \<Rightarrow> string \<Rightarrow> string \<Rightarrow> db" where
  "markMessagesAsRead d room name =
     d\<lparr>messages :=
         map (\<lambda>m. if m_roomId m = room \<and> receiverUsername m = name
                  then m\<lparr>isRead := True\<rparr> else m) (messages d)\<rparr>"

definition getAllOnlineUsers :: "db \<Rightarrow> onlineUser list" where
  "getAllOnlineUsers d = onlineUsers d"

definition addOnlineUser :: "db \<Rightarrow> nat \<Rightarrow> insertOnlineUser \<Rightarrow> db \<times> onlineUser" where
  "addOnlineUser d now ins =
     (let ou = \<lparr>o_id = onlineUsers_seq d, o_username = io_username ins,
                 o_roomId = io_roomId ins, socketId = io_socketId ins,
                 joinedAt = Some now, o_isAdmin = io_isAdmin ins\<rparr>
      in (d\<lparr>onlineUsers := onlineUsers d @ [ou], onlineUsers_seq := onlineUsers_seq d + 1\<rparr>, ou))"

definition removeOnlineUser :: "db \<Rightarrow> string \<Rightarrow> db" where
  "removeOnlineUser d sid = d\<lparr>onlineUsers := filter (\<lambda>ou. socketId ou \<noteq> sid) (onlineUsers d)\<rparr>"

definition createHelpRequest :: "db \<Rightarrow> nat \<Rightarrow> insertHelpRequest \<Rightarrow> db \<times> helpRequest" where
  "createHelpRequest d now ins =
     (let h = \<lparr>h_id = helpRequests_seq d, h_username = ih_username ins,
                h_roomId = ih_roomId ins, h_message = ih_message ins,
                status = (case ih_status ins of None \<Rightarrow> ''pending'' | Some s \<Rightarrow> s),
                h_createdAt = Some now\<rparr>
      in (d\<lparr>helpRequests := helpRequests d @ [h], helpRequests_seq := helpRequests_seq d + 1\<rparr>, h))"

subsection \<open>getAllUsersWithMessages\<close>

text \<open>
  The accumulator of the \<^verbatim>\<open>reduce\<close> is the object literal \<^verbatim>\<open>{}\<close>, whose prototype is
  \<^verbatim>\<open>Object.prototype\<close>. Its own properties are an association list in creation order.
  A read \<^verbatim>\<open>acc[username]\<close> finds an own property first and then walks the prototype chain, so
  the names below resolve to a function (or, for \<^verbatim>\<open>__proto__\<close>, to \<^verbatim>\<open>Object.prototype\<close>
  itself) although \<^verbatim>\<open>acc\<close> has no such entry. The list is the one of ECMAScript, Annex B
  included; the model describes a call that starts with \<^verbatim>\<open>Object.prototype\<close> unextended.
\<close>

definition object_prototype_keys :: "string list" where
  "object_prototype_keys =
     [''constructor'', ''__defineGetter__'', ''__defineSetter__'', ''hasOwnProperty'',
      ''__lookupGetter__'', ''__lookupSetter__'', ''isPrototypeOf'', ''propertyIsEnumerable'',
      ''toString'', ''valueOf'', ''__proto__'', ''toLocaleString'']"

text \<open>
  What \<^verbatim>\<open>acc[username]\<close> evaluates to. The flag says whether an earlier step of the same
  \<^verbatim>\<open>reduce\<close> has written \<^verbatim>\<open>lastMessage\<close> to \<^verbatim>\<open>Object.prototype\<close> (through
  \<^verbatim>\<open>acc["__proto__"]\<close>); from then on \<^verbatim>\<open>acc["lastMessage"]\<close> is inherited and truthy too.
  (The \<^verbatim>\<open>unreadCount\<close> written next to it is \<^verbatim>\<open>NaN\<close>, which is falsy.)
\<close>

datatype property = Own conversation | Inherited | Undefined

definition acc_get :: "(string \<times> conversation) list \<Rightarrow> bool \<Rightarrow> string \<Rightarrow> property" where
  "acc_get acc polluted k =
     (case map_of acc k of
        Some c \<Rightarrow> Own c
      | None \<Rightarrow> if k \<in> set object_prototype_keys \<or> (polluted \<and> k = ''lastMessage'')
                then Inherited else Undefined)"

text \<open>
  \<^verbatim>\<open>!currentUser.lastMessage || (msg.timestamp && (!currentUser.lastMessage.timestamp ||
  msg.timestamp > currentUser.lastMessage.timestamp))\<close>; a \<^verbatim>\<open>Date\<close> object is always truthy.
\<close>

definition more_recent :: "message \<Rightarrow> message option \<Rightarrow> bool" where
  "more_recent msg cur =
     (case cur of
        None \<Rightarrow> True
      | Some lm \<Rightarrow>
          (case timestamp msg of
             None \<Rightarrow> False
           | Some t \<Rightarrow> (case timestamp lm of None \<Rightarrow> True | Some t0 \<Rightarrow> t > t0)))"

text \<open>
  The callback of the \<^verbatim>\<open>reduce\<close>. When \<^verbatim>\<open>acc[username]\<close> is inherited, no entry is created
  and the two writes land on the inherited object, not on \<^verbatim>\<open>acc\<close>.
\<close>

definition group_step ::
  "(string \<times> conversation) list \<times> bool \<Rightarrow> message \<Rightarrow> (string \<times> conversation) list \<times> bool" where
  "group_step s msg =
     (let acc = fst s; polluted = snd s;
          username = (if senderUsername msg = ''admin'' then receiverUsername msg
                      else senderUsername msg);
          acc1 = (if acc_get acc polluted username = Undefined
                  then acc @ [(username, \<lparr>c_username = username, c_roomId = m_roomId msg,
                                           lastMessage = None, unreadCount = 0\<rparr>)]
                  else acc)
      in case acc_get acc1 polluted username of
           Own currentUser \<Rightarrow>
             (let c1 = (if more_recent msg (lastMessage currentUser)
                        then currentUser\<lparr>lastMessage := Some msg\<rparr> else currentUser);
                  c2 = (if senderUsername msg = username \<and> receiverUsername msg = ''admin''
                           \<and> \<not> isRead msg
                        then c1\<lparr>unreadCount := unreadCount c1 + 1\<rparr> else c1)
              in (AList.update username c2 acc1, polluted))
         | Inherited \<Rightarrow> (acc1, polluted \<or> username = ''__proto__'')
         | Undefined \<Rightarrow> (acc1, polluted))"

definition grouped :: "message list \<Rightarrow> (string \<times> conversation) list" where
  "grouped allMessages = fst (foldl group_step ([], False) allMessages)"

definition admin_messages :: "db \<Rightarrow> message list" where
  "admin_messages d =
     orderBy_asc_timestamp
       (filter (\<lambda>m. receiverUsername m = ''admin'' \<or> senderUsername m = ''admin'') (messages d))"

text \<open>
  \<^verbatim>\<open>Object.values(grouped)\<close>, here in creation order (JavaScript lists array-index keys
  first); nothing below depends on the order of the entries.
\<close>

definition getAllUsersWithMessages :: "db \<Rightarrow> conversation list" where
  "getAllUsersWithMessages d = map snd (grouped (admin_messages d))"

section \<open>The WebSocket server and the REST routes (server/routes.ts)\<close>

text \<open>
  A field of an event payload is whatever \<^verbatim>\<open>JSON.parse\<close> produced. Arrays and objects are one
  opaque constructor: the server only compares a field with \<^verbatim>\<open>===\<close> against a string, hands it
  to a schema that wants a string, or copies it into a reply.
\<close>

datatype json = JUndefined | JNull | JBool bool | JNumber int | JString string | JCompound

text \<open>
  The registry \<^verbatim>\<open>connections\<close> is a \<^verbatim>\<open>Map\<close> from the socket object to the identity it joined
  with: an association list in insertion order, as \<^verbatim>\<open>forEach\<close> visits it. A socket is
  identified by a number. The identity has the declared type of the map's values;
  \<^verbatim>\<open>isAdmin\<close> is the truthiness of the field the client sent (the user client sends none).
\<close>

type_synonym ws = nat

record connectionInfo =
  username :: string
  isAdmin :: bool
  roomId :: string

datatype ready_state = CONNECTING | OPEN | CLOSING | CLOSED

record server =
  connections :: "(ws \<times> connectionInfo) list"
  store :: db

text \<open>
  What an event handler reads from outside: the clock (\<^verbatim>\<open>Date.now()\<close>, also used for the
  database's \<^verbatim>\<open>now()\<close>), the state of every transport, and which storage calls the
  database rejects while the event is handled.
\<close>

datatype storage_call =
    GetUserByUsername | CreateUser | AddOnlineUser | GetAllUsersWithMessages
  | GetAllOnlineUsers | GetMessagesBetweenUsers | CreateMessage | MarkMessagesAsRead
  | RemoveOnlineUser | CreateHelpRequest

record env =
  now :: nat
  readyState :: "ws \<Rightarrow> ready_state"
  rejects :: "storage_call \<Rightarrow> bool"

text \<open>The outbound envelopes, by their \<^verbatim>\<open>type\<close> field, with the \<^verbatim>\<open>data\<close> they carry.\<close>

datatype outbound =
    AdminJoined "conversation list" "onlineUser list"
  | UserJoined "message list" string
  | NewUser string string bool
  | MessageEvent message
  | TypingEvent string json "string option"
  | UserLeft string string
  | HelpRequestEvent helpRequest

text \<open>
  What a handler does, in order: a completed write to the database, a \<^verbatim>\<open>send\<close> on a socket,
  the \<^verbatim>\<open>console.error\<close> of the \<^verbatim>\<open>catch\<close> block, or the rejection of the \<^verbatim>\<open>close\<close>
  handler's promise, which nothing catches.
\<close>

datatype effect =
    Write storage_call
  | Send ws outbound
  | ConsoleError
  | UnhandledRejection

text \<open>The loop \<^verbatim>\<open>connections.forEach\<close> with a condition on the identity and on \<^verbatim>\<open>readyState\<close>.\<close>

definition forEach_send ::
  "env \<Rightarrow> (ws \<times> connectionInfo) list \<Rightarrow> (connectionInfo \<Rightarrow> bool) \<Rightarrow> outbound \<Rightarrow> effect list" where
  "forEach_send e conns cond payload =
     map (\<lambda>(targetWs, targetInfo). Send targetWs payload)
       (filter (\<lambda>(targetWs, targetInfo). cond targetInfo \<and> readyState e targetWs = OPEN) conns)"

text \<open>The template literal \<^verbatim>\<open>${username}-${Date.now()}\<close>: the clock in decimal.\<close>

definition digit :: "nat \<Rightarrow> char" where
  "digit d = ''0123456789'' ! d"

fun decimal :: "nat \<Rightarrow> string" where
  "decimal n = (if n < 10 then [digit n] else decimal (n div 10) @ [digit (n mod 10)])"

declare decimal.simps [simp del]

definition socketId_of :: "string \<Rightarrow> nat \<Rightarrow> string" where
  "socketId_of name t = name @ ''-'' @ decimal t"

subsection \<open>case 'join'\<close>

record joinData =
  j_username :: string
  j_isAdmin :: bool
  j_roomId :: string

text \<open>
  The \<^verbatim>\<open>data\<close> of a frame is \<open>None\<close> when the frame has no \<^verbatim>\<open>data\<close> field or the field is
  \<^verbatim>\<open>null\<close>. The join case starts by destructuring it, which throws on such a frame before
  the registry is touched; the \<^verbatim>\<open>catch\<close> block logs the error.
\<close>

definition handle_join ::
  "env \<Rightarrow> server \<Rightarrow> ws \<Rightarrow> joinData option \<Rightarrow> server \<times> effect list" where
  "handle_join e s sock data =
     (case data of
        None \<Rightarrow> (s, [ConsoleError])
      | Some p \<Rightarrow>
      let info = \<lparr>username = j_username p, isAdmin = j_isAdmin p, roomId = j_roomId p\<rparr>;
          s1 = s\<lparr>connections := AList.update sock info (connections s)\<rparr>
      in if rejects e GetUserByUsername then (s1, [ConsoleError])
         else case (case getUserByUsername (store s1) (j_username p) of
                      Some u \<Rightarrow> Some (store s1, [])
                    | None \<Rightarrow>
                        if rejects e CreateUser then None
                        else map_option (\<lambda>r. (fst r, [Write CreateUser]))
                               (createUser (store s1) (now e)
                                  \<lparr>iu_username = j_username p, iu_isAdmin = j_isAdmin p\<rparr>)) of
                None \<Rightarrow> (s1, [ConsoleError])
              | Some (d1, w1) \<Rightarrow>
                  if rejects e AddOnlineUser then (s1\<lparr>store := d1\<rparr>, w1 @ [ConsoleError])
                  else
                    let d2 = fst (addOnlineUser d1 (now e)
                                    \<lparr>io_username = j_username p, io_roomId = j_roomId p,
                                     io_socketId = socketId_of (j_username p) (now e),
                                     io_isAdmin = j_isAdmin p\<rparr>);
                        s2 = s1\<lparr>store := d2\<rparr>;
                        w2 = w1 @ [Write AddOnlineUser]
                    in if j_isAdmin p then
                         (if rejects e GetAllUsersWithMessages \<or> rejects e GetAllOnlineUsers
                          then (s2, w2 @ [ConsoleError])
                          else (s2, w2 @ [Send sock (AdminJoined (getAllUsersWithMessages d2)
                                                        (getAllOnlineUsers d2))]))
                       else
                         (if rejects e GetMessagesBetweenUsers then (s2, w2 @ [ConsoleError])
                          else (s2, w2 @
                                  [Send sock (UserJoined
                                     (getMessagesBetweenUsers d2 (j_username p) ''admin'')
                                     (j_roomId p))] @
                                  forEach_send e (connections s2) isAdmin
                                    (NewUser (j_username p) (j_roomId p) True))))"

subsection \<open>case 'message'\<close>

record messageData =
  md_roomId :: json
  md_targetUsername :: json
  md_message :: json

text \<open>
  \<^verbatim>\<open>insertMessageSchema.parse\<close>: the four picked columns are \<^verbatim>\<open>text NOT NULL\<close>, so each
  field must be a string; anything else throws.
\<close>

definition insertMessageSchema_parse :: "json \<Rightarrow> json \<Rightarrow> json \<Rightarrow> json \<Rightarrow> insertMessage option" where
  "insertMessageSchema_parse room sender receiver body =
     (case (room, sender, receiver, body) of
        (JString r, JString s, JString t, JString b) \<Rightarrow>
          Some \<lparr>im_roomId = r, im_senderUsername = s, im_receiverUsername = t, im_message = b\<rparr>
      | _ \<Rightarrow> None)"

definition handle_message :: "env \<Rightarrow> server \<Rightarrow> ws \<Rightarrow> messageData \<Rightarrow> server \<times> effect list" where
  "handle_message e s sock messageData =
     (case map_of (connections s) sock of
        None \<Rightarrow> (s, [])
      | Some connectionInfo \<Rightarrow>
          (case insertMessageSchema_parse (md_roomId messageData)
                  (JString (username connectionInfo))
                  (if isAdmin connectionInfo then md_targetUsername messageData
                   else JString ''admin'')
                  (md_message messageData) of
             None \<Rightarrow> (s, [ConsoleError])
           | Some validatedMessage \<Rightarrow>
               if rejects e CreateMessage then (s, [ConsoleError])
               else
                 let (d1, message) = createMessage (store s) (now e) validatedMessage
                 in (s\<lparr>store := d1\<rparr>,
                     Write CreateMessage #
                     (if isAdmin connectionInfo then
                        forEach_send e (connections s)
                          (\<lambda>targetInfo.
                             JString (username targetInfo) = md_targetUsername messageData \<or>
                             (isAdmin targetInfo \<and>
                              username targetInfo = username connectionInfo))
                          (MessageEvent message)
                      else
                        forEach_send e (connections s)
                          (\<lambda>targetInfo.
                             isAdmin targetInfo \<or>
                             username targetInfo = username connectionInfo)
                          (MessageEvent message)))))"

subsection \<open>case 'typing'\<close>

record typingData =
  td_targetUsername :: json
  td_isTyping :: json

text \<open>
  The typing case reads the \<^verbatim>\<open>data\<close> of the frame only inside the loops. On a frame without
  \<^verbatim>\<open>data\<close> the admin's loop throws at \<^verbatim>\<open>typingData.targetUsername\<close>, in the condition of its
  first round; the user's loop throws at \<^verbatim>\<open>typingData.isTyping\<close>, while it builds the payload
  for the first open admin connection, before \<^verbatim>\<open>send\<close>. Either way nothing has been sent, and
  the \<^verbatim>\<open>catch\<close> block logs the error.
\<close>

definition handle_typing ::
  "env \<Rightarrow> server \<Rightarrow> ws \<Rightarrow> typingData option \<Rightarrow> server \<times> effect list" where
  "handle_typing e s sock data =
     (case map_of (connections s) sock of
        None \<Rightarrow> (s, [])
      | Some typingConnectionInfo \<Rightarrow>
          (case data of
             Some typingData \<Rightarrow>
               if isAdmin typingConnectionInfo then
                 (s, forEach_send e (connections s)
                       (\<lambda>targetInfo. JString (username targetInfo) = td_targetUsername typingData)
                       (TypingEvent (username typingConnectionInfo) (td_isTyping typingData) None))
               else
                 (s, forEach_send e (connections s) isAdmin
                       (TypingEvent (username typingConnectionInfo) (td_isTyping typingData)
                          (Some (roomId typingConnectionInfo))))
           | None \<Rightarrow>
               if isAdmin typingConnectionInfo then
                 (s, if connections s = [] then [] else [ConsoleError])
               else
                 (s, if list_ex (\<lambda>(targetWs, targetInfo).
                                   isAdmin targetInfo \<and> readyState e targetWs = OPEN)
                          (connections s)
                     then [ConsoleError] else [])))"

subsection \<open>case 'markAsRead'\<close>

text \<open>The room is taken at the type the storage method declares for it, a string.\<close>

record readData =
  rd_roomId :: string

definition handle_markAsRead :: "env \<Rightarrow> server \<Rightarrow> ws \<Rightarrow> readData \<Rightarrow> server \<times> effect list" where
  "handle_markAsRead e s sock readData =
     (case map_of (connections s) sock of
        None \<Rightarrow> (s, [])
      | Some readerInfo \<Rightarrow>
          if rejects e MarkMessagesAsRead then (s, [ConsoleError])
          else (s\<lparr>store := markMessagesAsRead (store s) (rd_roomId readData) (username readerInfo)\<rparr>,
                [Write MarkMessagesAsRead]))"

subsection \<open>ws.on('message') and ws.on('close')\<close>

text \<open>
  An inbound frame: one of the four event types with its \<^verbatim>\<open>data\<close> object, or with none
  (\<open>None\<close>: no \<^verbatim>\<open>data\<close> field, or \<^verbatim>\<open>null\<close>), a frame whose \<^verbatim>\<open>type\<close> matches no case, or
  a frame that \<^verbatim>\<open>JSON.parse\<close> rejects. The message and the markAsRead case look the sender up
  first and leave the switch if it is not registered; for a registered sender the first read
  of a field of a missing \<^verbatim>\<open>data\<close> (\<^verbatim>\<open>messageData.roomId\<close>, \<^verbatim>\<open>readData.roomId\<close>) throws,
  and the \<^verbatim>\<open>catch\<close> block logs the error.
\<close>

datatype event =
    Join "joinData option"
  | Message "messageData option"
  | Typing "typingData option"
  | MarkAsRead "readData option"
  | OtherType
  | Unparsable

definition on_message :: "env \<Rightarrow> server \<Rightarrow> ws \<Rightarrow> event \<Rightarrow> server \<times> effect list" where
  "on_message e s sock ev =
     (case ev of
        Join data \<Rightarrow> handle_join e s sock data
      | Message (Some messageData) \<Rightarrow> handle_message e s sock messageData
      | Message None \<Rightarrow>
          (case map_of (connections s) sock of
             None \<Rightarrow> (s, [])
           | Some connectionInfo \<Rightarrow> (s, [ConsoleError]))
      | Typing data \<Rightarrow> handle_typing e s sock data
      | MarkAsRead (Some readData) \<Rightarrow> handle_markAsRead e s sock readData
      | MarkAsRead None \<Rightarrow>
          (case map_of (connections s) sock of
             None \<Rightarrow> (s, [])
           | Some readerInfo \<Rightarrow> (s, [ConsoleError]))
      | OtherType \<Rightarrow> (s, [])
      | Unparsable \<Rightarrow> (s, [ConsoleError]))"

definition on_close :: "env \<Rightarrow> server \<Rightarrow> ws \<Rightarrow> server \<times> effect list" where
  "on_close e s sock =
     (case map_of (connections s) sock of
        None \<Rightarrow> (s, [])
      | Some connectionInfo \<Rightarrow>
          if rejects e RemoveOnlineUser then (s, [UnhandledRejection])
          else
            (s\<lparr>store := removeOnlineUser (store s)
                          (socketId_of (username connectionInfo) (now e)),
               connections := AList.delete sock (connections s)\<rparr>,
             Write RemoveOnlineUser #
             (if \<not> isAdmin connectionInfo then
                forEach_send e (connections s) isAdmin
                  (UserLeft (username connectionInfo) (roomId connectionInfo))
              else [])))"

subsection \<open>POST /api/help-requests\<close>

record helpRequestBody =
  hb_username :: json
  hb_roomId :: json
  hb_message :: json
  hb_status :: json

text \<open>
  \<^verbatim>\<open>insertHelpRequestSchema.parse\<close>: three required strings; \<^verbatim>\<open>status\<close> has a default in the
  table, so it may be absent, and must be a string when present.
\<close>

definition insertHelpRequestSchema_parse :: "helpRequestBody \<Rightarrow> insertHelpRequest option" where
  "insertHelpRequestSchema_parse b =
     (case (hb_username b, hb_roomId b, hb_message b) of
        (JString u, JString r, JString m) \<Rightarrow>
          (case hb_status b of
             JUndefined \<Rightarrow>
               Some \<lparr>ih_username = u, ih_roomId = r, ih_message = m, ih_status = None\<rparr>
           | JString st \<Rightarrow>
               Some \<lparr>ih_username = u, ih_roomId = r, ih_message = m, ih_status = Some st\<rparr>
           | _ \<Rightarrow> None)
      | _ \<Rightarrow> None)"

datatype http_response = Json helpRequest | Status400

definition post_help_requests ::
  "env \<Rightarrow> server \<Rightarrow> helpRequestBody \<Rightarrow> server \<times> effect list \<times> http_response" where
  "post_help_requests e s body =
     (case insertHelpRequestSchema_parse body of
        None \<Rightarrow> (s, [], Status400)
      | Some validatedRequest \<Rightarrow>
          if rejects e CreateHelpRequest then (s, [], Status400)
          else
            let (d1, helpRequest) = createHelpRequest (store s) (now e) validatedRequest
            in (s\<lparr>store := d1\<rparr>,
                Write CreateHelpRequest #
                forEach_send e (connections s) isAdmin (HelpRequestEvent helpRequest),
                Json helpRequest))"

section \<open>Notions used in the statements\<close>

text \<open>
  The local \<^verbatim>\<open>username\<close> of the \<^verbatim>\<open>reduce\<close> callback: the other end of a message to or from
  \<^verbatim>\<open>'admin'\<close>; and the condition under which the callback increments \<^verbatim>\<open>unreadCount\<close>.
\<close>

definition party :: "message \<Rightarrow> string" where
  "party msg = (if senderUsername msg = ''admin'' then receiverUsername msg else senderUsername msg)"

definition unread_from :: "string \<Rightarrow> message \<Rightarrow> bool" where
  "unread_from name m = (senderUsername m = name \<and> receiverUsername m = ''admin'' \<and> \<not> isRead m)"

text \<open>
  The invariant of the \<^verbatim>\<open>reduce\<close> after the rows \<open>rows\<close>: own keys are distinct, every entry
  carries its key and the unread count of its user so far, and every row seen so far either
  has an entry or met an inherited property.
\<close>

definition group_inv :: "message list \<Rightarrow> (string \<times> conversation) list \<times> bool \<Rightarrow> bool" where
  "group_inv rows s =
     (distinct (map fst (fst s)) \<and>
      (\<forall>k c. map_of (fst s) k = Some c \<longrightarrow>
         c_username c = k \<and> unreadCount c = length (filter (unread_from k) rows)) \<and>
      (\<forall>m \<in> set rows. map_of (fst s) (party m) \<noteq> None \<or> party m \<in> set object_prototype_keys \<or>
         (snd s \<and> party m = ''lastMessage'')))"

text \<open>
  \<open>not_later m' m\<close>: the timestamp of \<open>m'\<close> is not after that of \<open>m\<close>, a message without
  timestamp counting as earlier than any other; and the rows the query of
  \<^verbatim>\<open>getAllUsersWithMessages\<close> selects.
\<close>

definition not_later :: "message \<Rightarrow> message \<Rightarrow> bool" where
  "not_later m' m =
     (case timestamp m' of
        None \<Rightarrow> True
      | Some a \<Rightarrow> (case timestamp m of None \<Rightarrow> False | Some b \<Rightarrow> a \<le> b))"

definition to_or_from_admin :: "message \<Rightarrow> bool" where
  "to_or_from_admin m = (receiverUsername m = ''admin'' \<or> senderUsername m = ''admin'')"

text \<open>Reading a decimal numeral back.\<close>

definition undecimal :: "string \<Rightarrow> nat" where
  "undecimal cs = foldl (\<lambda>a c. 10 * a + (of_char c - 48)) 0 cs"

section \<open>Concrete runs\<close>

definition empty_db :: db where
  "empty_db = \<lparr>users = [], messages = [], onlineUsers = [], helpRequests = [],
               users_seq = 1, messages_seq = 1, onlineUsers_seq = 1, helpRequests_seq = 1\<rparr>"

definition server0 :: server where
  "server0 = \<lparr>connections = [], store = empty_db\<rparr>"

text \<open>Every transport open and the database up, at clock \<open>t\<close>; and the same with the database down.\<close>

definition env_at :: "nat \<Rightarrow> env" where
  "env_at t = \<lparr>now = t, readyState = (\<lambda>_. OPEN), rejects = (\<lambda>_. False)\<rparr>"

definition env_down :: "nat \<Rightarrow> env" where
  "env_down t = \<lparr>now = t, readyState = (\<lambda>_. OPEN), rejects = (\<lambda>_. True)\<rparr>"

text \<open>Socket 2 has stopped being writable; the other transports are open.\<close>

definition env_tab2_closing :: "nat \<Rightarrow> env" where
  "env_tab2_closing t =
     \<lparr>now = t, readyState = (\<lambda>c. if c = 2 then CLOSING else OPEN), rejects = (\<lambda>_. False)\<rparr>"

text \<open>Frames \<open>(clock, socket, event)\<close> handled one after the other.\<close>

definition replay :: "server \<Rightarrow> (nat \<times> ws \<times> event) list \<Rightarrow> server" where
  "replay s frames = foldl (\<lambda>s (t, sock, ev). fst (on_message (env_at t) s sock ev)) s frames"

definition join_as :: "string \<Rightarrow> bool \<Rightarrow> string \<Rightarrow> event" where
  "join_as name adm room = Join (Some \<lparr>j_username = name, j_isAdmin = adm, j_roomId = room\<rparr>)"

definition say :: "string \<Rightarrow> json \<Rightarrow> string \<Rightarrow> messageData" where
  "say room target body =
     \<lparr>md_roomId = JString room, md_targetUsername = target, md_message = JString body\<rparr>"

definition alice :: connectionInfo where
  "alice = \<lparr>username = ''alice'', isAdmin = False, roomId = ''alice''\<rparr>"

definition admin :: connectionInfo where
  "admin = \<lparr>username = ''admin'', isAdmin = True, roomId = ''admin''\<rparr>"

definition bob :: connectionInfo where
  "bob = \<lparr>username = ''bob'', isAdmin = False, roomId = ''bob''\<rparr>"

text \<open>alice in two tabs (sockets 1 and 2), the admin on socket 3, bob on socket 4.\<close>

definition four_sockets :: server where
  "four_sockets = \<lparr>connections = [(1, alice), (2, alice), (3, admin), (4, bob)], store = empty_db\<rparr>"

text \<open>alice joins on socket 1 at clock 1000.\<close>

definition alice_joined :: server where
  "alice_joined = replay server0 [(1000, 1, join_as ''alice'' False ''alice'')]"

text \<open>A user who calls herself \<^verbatim>\<open>constructor\<close> joins and sends one message.\<close>

definition constructor_wrote :: server where
  "constructor_wrote =
     replay server0
       [(1, 1, join_as ''constructor'' False ''constructor''),
        (2, 1, Message (Some (say ''constructor'' JUndefined ''hello'')))]"

text \<open>The admin joins on socket 1 and sends a message whose target is \<^verbatim>\<open>admin\<close>.\<close>

definition admin_wrote_to_admin :: server where
  "admin_wrote_to_admin =
     replay server0
       [(1, 1, join_as ''admin'' True ''admin''),
        (2, 1, Message (Some (say ''admin'' (JString ''admin'') ''note'')))]"

text \<open>
  alice joins in two tabs, with the rooms \<^verbatim>\<open>alice\<close> and \<^verbatim>\<open>lobby\<close>, the admin joins on
  socket 3, and alice sends one message from each tab.
\<close>

definition alice_two_rooms :: server where
  "alice_two_rooms =
     replay server0
       [(1, 1, join_as ''alice'' False ''alice''),
        (2, 2, join_as ''alice'' False ''lobby''),
        (3, 3, join_as ''admin'' True ''admin''),
        (4, 1, Message (Some (say ''alice'' JUndefined ''hello''))),
        (5, 2, Message (Some (say ''lobby'' JUndefined ''hello again'')))]"

text \<open>alice joins, the admin joins on socket 2, and alice sends two messages in her room.\<close>

definition alice_wrote_twice :: server where
  "alice_wrote_twice =
     replay server0
       [(1, 1, join_as ''alice'' False ''alice''),
        (2, 2, join_as ''admin'' True ''admin''),
        (3, 1, Message (Some (say ''alice'' JUndefined ''hello''))),
        (4, 1, Message (Some (say ''alice'' JUndefined ''anyone there?'')))]"

definition help_body :: helpRequestBody where
  "help_body = \<lparr>hb_username = JString ''bob'', hb_roomId = JString ''bob'',
                 hb_message = JString ''help'', hb_status = JUndefined\<rparr>"

section \<open>The fan-out loop\<close>

lemma forEach_send_count:
  "distinct (map fst conns) \<Longrightarrow>
   count_list (forEach_send e conns cond payload) (Send c out) =
     (if out = payload \<and> (\<exists>i. map_of conns c = Some i \<and> cond i) \<and> readyState e c = OPEN
      then 1 else 0)"
proof (induction conns)
  case Nil
  show ?case by (simp add: forEach_send_def)
next
  case (Cons a conns)
  obtain k i where a: "a = (k, i)" by (cases a)
  from Cons.prems a have nk: "k \<notin> fst ` set conns" and d: "distinct (map fst conns)" by auto
  have unroll: "forEach_send e ((k, i) # conns) cond payload =
      (if cond i \<and> readyState e k = OPEN then [Send k payload] else []) @
      forEach_send e conns cond payload"
    by (simp add: forEach_send_def)
  from nk have none: "map_of conns k = None" by (simp add: map_of_eq_None_iff)
  show ?case
    unfolding a unroll using Cons.IH [OF d] none by auto
qed

lemma forEach_send_only_sends:
  "x \<in> set (forEach_send e conns cond payload) \<Longrightarrow> \<exists>c. x = Send c payload"
  by (auto simp: forEach_send_def)

section \<open>The grouping of getAllUsersWithMessages\<close>

lemma unread_from_party: "unread_from k m \<Longrightarrow> party m = k"
  by (auto simp: unread_from_def party_def)

text \<open>The callback, by the three things \<^verbatim>\<open>acc[username]\<close> can be.\<close>

lemma group_step_cases:
  "group_step (acc, pl) msg =
     (case map_of acc (party msg) of
        Some c \<Rightarrow>
          (AList.update (party msg)
             ((if more_recent msg (lastMessage c) then c\<lparr>lastMessage := Some msg\<rparr> else c)
                \<lparr>unreadCount := unreadCount c + (if unread_from (party msg) msg then 1 else 0)\<rparr>)
             acc, pl)
      | None \<Rightarrow>
          if party msg \<in> set object_prototype_keys \<or> (pl \<and> party msg = ''lastMessage'')
          then (acc, pl \<or> party msg = ''__proto__'')
          else (acc @ [(party msg,
                  \<lparr>c_username = party msg, c_roomId = m_roomId msg, lastMessage = Some msg,
                   unreadCount = (if unread_from (party msg) msg then 1 else 0)\<rparr>)], pl))"
proof (cases "map_of acc (party msg)")
  case (Some c)
  then show ?thesis
    by (simp add: group_step_def acc_get_def Let_def party_def [symmetric] unread_from_def)
next
  case None
  then have upd: "\<And>v w. AList.update (party msg) v (acc @ [(party msg, w)]) = acc @ [(party msg, v)]"
    by (induction acc) (auto split: if_splits)
  from None show ?thesis
    by (simp add: group_step_def acc_get_def Let_def party_def [symmetric] unread_from_def upd
          map_add_def more_recent_def)
qed

lemma length_filter_snoc_unread:
  "length (filter (unread_from k) (rows @ [msg])) =
     length (filter (unread_from k) rows) + (if unread_from k msg then 1 else 0)"
  by simp

lemma group_inv_step:
  assumes "group_inv rows s"
  shows "group_inv (rows @ [msg]) (group_step s msg)"
proof -
  obtain acc pl where s: "s = (acc, pl)" by (cases s)
  from assms have "group_inv rows (acc, pl)" unfolding s .
  then have d: "distinct (map fst acc)"
    and e: "\<And>k c. map_of acc k = Some c \<Longrightarrow>
              c_username c = k \<and> unreadCount c = length (filter (unread_from k) rows)"
    and c: "\<And>m. m \<in> set rows \<Longrightarrow> map_of acc (party m) \<noteq> None \<or>
              party m \<in> set object_prototype_keys \<or> (pl \<and> party m = ''lastMessage'')"
    unfolding group_inv_def fst_conv snd_conv by blast+
  have other: "\<And>k. unread_from k msg \<Longrightarrow> k = party msg"
    using unread_from_party by blast
  show ?thesis
  proof (cases "map_of acc (party msg)")
    case (Some cur)
    define c2 where "c2 =
      (if more_recent msg (lastMessage cur) then cur\<lparr>lastMessage := Some msg\<rparr> else cur)
        \<lparr>unreadCount := unreadCount cur + (if unread_from (party msg) msg then 1 else 0)\<rparr>"
    have step: "group_step s msg = (AList.update (party msg) c2 acc, pl)"
      unfolding s group_step_cases c2_def using Some by simp
    have c2: "c_username c2 = party msg"
      "unreadCount c2 = length (filter (unread_from (party msg)) (rows @ [msg]))"
      using e [OF Some] by (simp_all add: c2_def)
    have 1: "distinct (map fst (AList.update (party msg) c2 acc))"
      using d by (rule distinct_update)
    have 2: "c_username x = k \<and> unreadCount x = length (filter (unread_from k) (rows @ [msg]))"
      if "map_of (AList.update (party msg) c2 acc) k = Some x" for k x
    proof (cases "k = party msg")
      case True
      with that have "x = c2" by (simp add: update_conv')
      with c2 True show ?thesis by simp
    next
      case False
      with that have "map_of acc k = Some x" by (simp add: update_conv')
      from e [OF this] False other [of k] show ?thesis
        unfolding length_filter_snoc_unread by auto
    qed
    have 3: "map_of (AList.update (party msg) c2 acc) (party m) \<noteq> None \<or>
             party m \<in> set object_prototype_keys \<or> (pl \<and> party m = ''lastMessage'')"
      if "m \<in> set (rows @ [msg])" for m
    proof (cases "m = msg")
      case True
      then show ?thesis by (simp add: update_conv')
    next
      case False
      with that have "m \<in> set rows" by simp
      from c [OF this] show ?thesis by (auto simp: update_conv')
    qed
    show ?thesis
      unfolding step group_inv_def fst_conv snd_conv using 1 2 3 by blast
  next
    case None
    show ?thesis
    proof (cases "party msg \<in> set object_prototype_keys \<or> (pl \<and> party msg = ''lastMessage'')")
      case True
      have step: "group_step s msg = (acc, pl \<or> party msg = ''__proto__'')"
        unfolding s group_step_cases using None True by simp
      have 2: "c_username x = k \<and> unreadCount x = length (filter (unread_from k) (rows @ [msg]))"
        if "map_of acc k = Some x" for k x
      proof -
        from that None have "k \<noteq> party msg" by auto
        with e [OF that] other [of k] show ?thesis
          unfolding length_filter_snoc_unread by auto
      qed
      have 3: "map_of acc (party m) \<noteq> None \<or>
               party m \<in> set object_prototype_keys \<or>
               ((pl \<or> party msg = ''__proto__'') \<and> party m = ''lastMessage'')"
        if "m \<in> set (rows @ [msg])" for m
      proof (cases "m = msg")
        case True
        with \<open>party msg \<in> set object_prototype_keys \<or> (pl \<and> party msg = ''lastMessage'')\<close>
        show ?thesis by blast
      next
        case False
        with that have "m \<in> set rows" by simp
        from c [OF this] show ?thesis by blast
      qed
      show ?thesis
        unfolding step group_inv_def fst_conv snd_conv using d 2 3 by blast
    next
      case False
      define c2 where "c2 =
        \<lparr>c_username = party msg, c_roomId = m_roomId msg, lastMessage = Some msg,
         unreadCount = (if unread_from (party msg) msg then 1 else (0::nat))\<rparr>"
      have step: "group_step s msg = (acc @ [(party msg, c2)], pl)"
        unfolding s group_step_cases c2_def using None False by simp
      have none: "party m \<noteq> party msg" if "m \<in> set rows" for m
        using c [OF that] None False by auto
      then have zero: "filter (unread_from (party msg)) rows = []"
        by (auto simp: filter_empty_conv dest: unread_from_party)
      from None have nk: "party msg \<notin> fst ` set acc"
        by (simp add: map_of_eq_None_iff)
      have look: "map_of (acc @ [(party msg, c2)]) k =
                  (if k = party msg then Some c2 else map_of acc k)" for k
        using None by (simp add: map_add_def split: option.splits)
      have c2: "c_username c2 = party msg"
        "unreadCount c2 = length (filter (unread_from (party msg)) (rows @ [msg]))"
        unfolding length_filter_snoc_unread zero by (simp_all add: c2_def)
      have 1: "distinct (map fst (acc @ [(party msg, c2)]))"
        using d nk by simp
      have 2: "c_username x = k \<and> unreadCount x = length (filter (unread_from k) (rows @ [msg]))"
        if "map_of (acc @ [(party msg, c2)]) k = Some x" for k x
      proof (cases "k = party msg")
        case True
        with that have "x = c2" by (simp del: map_of_append add: look)
        with c2 True show ?thesis by simp
      next
        case False
        with that have "map_of acc k = Some x" by (simp del: map_of_append add: look)
        from e [OF this] False other [of k] show ?thesis
          unfolding length_filter_snoc_unread by auto
      qed
      have 3: "map_of (acc @ [(party msg, c2)]) (party m) \<noteq> None \<or>
               party m \<in> set object_prototype_keys \<or> (pl \<and> party m = ''lastMessage'')"
        if "m \<in> set (rows @ [msg])" for m
      proof (cases "m = msg")
        case True
        then show ?thesis by (simp del: map_of_append add: look)
      next
        case False
        with that have "m \<in> set rows" by simp
        from c [OF this] show ?thesis by (auto simp del: map_of_append simp add: look)
      qed
      show ?thesis
        unfolding step group_inv_def fst_conv snd_conv using 1 2 3 by blast
    qed
  qed
qed

lemma group_inv_foldl: "group_inv rows (foldl group_step ([], False) rows)"
proof (induction rows rule: rev_induct)
  case Nil
  show ?case by (simp add: group_inv_def)
next
  case (snoc x xs)
  then show ?case by (simp add: group_inv_step)
qed

lemma grouped_unreadCount:
  assumes "c \<in> set (map snd (grouped rows))"
  shows "unreadCount c = length (filter (unread_from (c_username c)) rows)"
proof -
  from assms obtain k where k: "(k, c) \<in> set (grouped rows)" by auto
  have inv: "group_inv rows (foldl group_step ([], False) rows)" by (rule group_inv_foldl)
  then have "distinct (map fst (grouped rows))" by (simp add: group_inv_def grouped_def)
  with k have "map_of (grouped rows) k = Some c" by simp
  with inv show ?thesis by (auto simp: group_inv_def grouped_def)
qed

lemma length_filter_insort_key:
  "length (filter P (insort_key f x xs)) = length (filter P (x # xs))"
  by (induction xs) auto

lemma length_filter_sort_key: "length (filter P (sort_key f xs)) = length (filter P xs)"
  by (induction xs) (auto simp: length_filter_insort_key)

text \<open>
  Every entry of the list counts all the unread messages its user has sent to \<^verbatim>\<open>admin\<close>,
  whatever their room.
\<close>

lemma getAllUsersWithMessages_unreadCount:
  assumes "c \<in> set (getAllUsersWithMessages d)"
  shows "unreadCount c = length (filter (unread_from (c_username c)) (messages d))"
proof -
  have "unreadCount c = length (filter (unread_from (c_username c)) (admin_messages d))"
    using assms by (simp add: getAllUsersWithMessages_def grouped_unreadCount)
  also have "\<dots> = length (filter (unread_from (c_username c))
       (filter (\<lambda>m. receiverUsername m = ''admin'' \<or> senderUsername m = ''admin'') (messages d)))"
    by (simp add: admin_messages_def orderBy_asc_timestamp_def length_filter_sort_key)
  also have "\<dots> = length (filter (unread_from (c_username c)) (messages d))"
    by (rule arg_cong [where f = length]) (auto simp: unread_from_def intro: filter_cong)
  finally show ?thesis .
qed

lemma markMessagesAsRead_twice:
  "markMessagesAsRead (markMessagesAsRead d room name) room name = markMessagesAsRead d room name"
  by (simp add: markMessagesAsRead_def)

lemma unread_after_markMessagesAsRead:
  "length (filter (unread_from u) (messages (markMessagesAsRead d room name))) =
   length (filter (\<lambda>m. senderUsername m = u \<and> receiverUsername m = ''admin'' \<and> \<not> isRead m \<and>
                       \<not> (m_roomId m = room \<and> name = ''admin'')) (messages d))"
proof -
  have "filter (unread_from u \<circ> (\<lambda>m. if m_roomId m = room \<and> receiverUsername m = name
                                     then m\<lparr>isRead := True\<rparr> else m)) (messages d) =
        filter (\<lambda>m. senderUsername m = u \<and> receiverUsername m = ''admin'' \<and> \<not> isRead m \<and>
                       \<not> (m_roomId m = room \<and> name = ''admin'')) (messages d)"
    by (rule filter_cong) (auto simp: unread_from_def)
  then show ?thesis
    by (simp add: markMessagesAsRead_def filter_map)
qed

text \<open>
  What the list is when no user's name is inherited by the accumulator: one entry for each
  name that is the other end of a message to or from \<^verbatim>\<open>admin\<close>, each with a last message of
  that name that no other message of the name is later than.
\<close>

lemma grouped_keys:
  assumes "\<forall>m \<in> set rows. party m \<notin> set object_prototype_keys"
  shows "snd (foldl group_step ([], False) rows) = False \<and>
         fst ` set (fst (foldl group_step ([], False) rows)) = party ` set rows"
  using assms
proof (induction rows rule: rev_induct)
  case Nil
  show ?case by simp
next
  case (snoc x xs)
  obtain acc pl where s: "foldl group_step ([], False) xs = (acc, pl)"
    by (cases "foldl group_step ([], False) xs")
  from snoc s have pl: "pl = False" and keys: "fst ` set acc = party ` set xs"
    and x: "party x \<notin> set object_prototype_keys"
    by simp_all
  show ?case
  proof (cases "map_of acc (party x)")
    case (Some cur)
    then show ?thesis
      using pl keys by (simp add: s group_step_cases dom_update)
  next
    case None
    then show ?thesis
      using pl keys x by (simp add: s group_step_cases)
  qed
qed

lemma not_later_refl: "not_later m m"
  by (simp add: not_later_def split: option.splits)

lemma not_later_sorted:
  "ts_key m' \<le> ts_key m \<Longrightarrow> timestamp m = Some t \<Longrightarrow> not_later m' m"
  by (auto simp: ts_key_def not_later_def split: option.splits)

lemma not_more_recent: "\<not> more_recent m (Some lm) \<Longrightarrow> not_later m lm"
  by (auto simp: more_recent_def not_later_def split: option.splits)

lemma more_recent_timestamp: "more_recent m (Some lm) \<Longrightarrow> \<exists>t. timestamp m = Some t"
  by (auto simp: more_recent_def split: option.splits)

lemma grouped_lastMessage:
  assumes "sorted (map ts_key rows)"
      and "map_of (fst (foldl group_step ([], False) rows)) k = Some c"
  shows "\<exists>m. lastMessage c = Some m \<and> m \<in> set rows \<and> party m = k \<and>
           (\<forall>m' \<in> set rows. party m' = k \<longrightarrow> not_later m' m)"
  using assms
proof (induction rows arbitrary: k c rule: rev_induct)
  case Nil
  then show ?case by simp
next
  case (snoc x xs)
  obtain acc pl where s: "foldl group_step ([], False) xs = (acc, pl)"
    by (cases "foldl group_step ([], False) xs")
  from snoc.prems(1) have sorted: "sorted (map ts_key xs)"
    and before: "\<And>y. y \<in> set xs \<Longrightarrow> ts_key y \<le> ts_key x"
    by (auto simp: sorted_append)
  have IH: "\<exists>m. lastMessage c' = Some m \<and> m \<in> set xs \<and> party m = k' \<and>
              (\<forall>m' \<in> set xs. party m' = k' \<longrightarrow> not_later m' m)"
    if "map_of acc k' = Some c'" for k' c'
    using snoc.IH [OF sorted] that s by simp
  have inv: "group_inv xs (acc, pl)"
    using group_inv_foldl [of xs] s by simp
  then have seen: "\<And>m. m \<in> set xs \<Longrightarrow> map_of acc (party m) \<noteq> None \<or>
              party m \<in> set object_prototype_keys \<or> (pl \<and> party m = ''lastMessage'')"
    unfolding group_inv_def fst_conv snd_conv by blast
  show ?case
  proof (cases "map_of acc (party x)")
    case (Some cur)
    from IH [OF Some] obtain lm where lm: "lastMessage cur = Some lm" "lm \<in> set xs"
      "party lm = party x" "\<And>m'. m' \<in> set xs \<Longrightarrow> party m' = party x \<Longrightarrow> not_later m' lm"
      by blast
    define c2 where "c2 =
      (if more_recent x (lastMessage cur) then cur\<lparr>lastMessage := Some x\<rparr> else cur)
        \<lparr>unreadCount := unreadCount cur + (if unread_from (party x) x then 1 else 0)\<rparr>"
    have look: "map_of (fst (foldl group_step ([], False) (xs @ [x]))) k' =
        (if k' = party x then Some c2 else map_of acc k')" for k'
      using Some by (simp add: s group_step_cases c2_def update_conv')
    show ?thesis
    proof (cases "k = party x")
      case True
      from snoc.prems(2) [unfolded look] True have c: "c = c2" by simp
      show ?thesis
      proof (cases "more_recent x (Some lm)")
        case mr: True
        then obtain t where t: "timestamp x = Some t"
          using more_recent_timestamp by blast
        have "not_later m' x" if "m' \<in> set (xs @ [x])" for m'
          using that before t not_later_refl not_later_sorted by auto
        with mr lm(1) True show ?thesis
          by (auto simp: c c2_def)
      next
        case nmr: False
        then have "not_later x lm" by (rule not_more_recent)
        with nmr lm True show ?thesis
          by (auto simp: c c2_def)
      qed
    next
      case False
      from snoc.prems(2) [unfolded look] False have "map_of acc k = Some c" by simp
      from IH [OF this] False show ?thesis by auto
    qed
  next
    case None
    show ?thesis
    proof (cases "party x \<in> set object_prototype_keys \<or> (pl \<and> party x = ''lastMessage'')")
      case True
      with None have "fst (foldl group_step ([], False) (xs @ [x])) = acc"
        by (simp add: s group_step_cases)
      with snoc.prems(2) have k: "map_of acc k = Some c" by simp
      with None have "k \<noteq> party x" by auto
      with IH [OF k] show ?thesis by auto
    next
      case False
      define c2 where "c2 =
        \<lparr>c_username = party x, c_roomId = m_roomId x, lastMessage = Some x,
         unreadCount = (if unread_from (party x) x then 1 else (0::nat))\<rparr>"
      have look: "map_of (fst (foldl group_step ([], False) (xs @ [x]))) k' =
          (if k' = party x then Some c2 else map_of acc k')" for k'
      proof -
        have "foldl group_step ([], False) (xs @ [x]) = (acc @ [(party x, c2)], pl)"
          using None False by (simp add: s group_step_cases c2_def)
        then show ?thesis
          using None by (simp add: map_add_def split: option.splits)
      qed
      have fresh: "party m \<noteq> party x" if "m \<in> set xs" for m
        using seen [OF that] None False by auto
      show ?thesis
      proof (cases "k = party x")
        case True
        from snoc.prems(2) [unfolded look] True have c: "c = c2" by simp
        from fresh True show ?thesis
          by (auto simp: c c2_def not_later_refl)
      next
        case False
        from snoc.prems(2) [unfolded look] False have "map_of acc k = Some c" by simp
        from IH [OF this] False show ?thesis by auto
      qed
    qed
  qed
qed

lemma set_admin_messages: "set (admin_messages d) = {m \<in> set (messages d). to_or_from_admin m}"
  by (auto simp: admin_messages_def orderBy_asc_timestamp_def to_or_from_admin_def)

lemma sorted_admin_messages: "sorted (map ts_key (admin_messages d))"
  by (simp add: admin_messages_def orderBy_asc_timestamp_def)

lemma grouped_entry:
  assumes "c \<in> set (map snd (grouped rows))"
  shows "map_of (fst (foldl group_step ([], False) rows)) (c_username c) = Some c"
proof -
  from assms obtain k where k: "(k, c) \<in> set (grouped rows)" by auto
  have inv: "group_inv rows (foldl group_step ([], False) rows)" by (rule group_inv_foldl)
  then have "distinct (map fst (grouped rows))" by (simp add: group_inv_def grouped_def)
  with k have "map_of (grouped rows) k = Some c" by simp
  with inv show ?thesis by (auto simp: group_inv_def grouped_def)
qed

lemma getAllUsersWithMessages_distinct:
  "distinct (map c_username (getAllUsersWithMessages d))"
proof -
  have inv: "group_inv (admin_messages d) (foldl group_step ([], False) (admin_messages d))"
    by (rule group_inv_foldl)
  then have d: "distinct (map fst (grouped (admin_messages d)))"
    by (simp add: group_inv_def grouped_def)
  have "map c_username (getAllUsersWithMessages d) = map fst (grouped (admin_messages d))"
    unfolding getAllUsersWithMessages_def map_map
  proof (rule map_cong [OF refl])
    fix x assume x: "x \<in> set (grouped (admin_messages d))"
    obtain k c where kc: "x = (k, c)" by (cases x)
    with x d have "map_of (grouped (admin_messages d)) k = Some c" by simp
    with inv have "c_username c = k" by (auto simp: group_inv_def grouped_def)
    with kc show "(c_username \<circ> snd) x = fst x" by simp
  qed
  with d show ?thesis by simp
qed

lemma getAllUsersWithMessages_lastMessage:
  assumes "c \<in> set (getAllUsersWithMessages d)"
  shows "\<exists>m. lastMessage c = Some m \<and> m \<in> set (messages d) \<and> to_or_from_admin m \<and>
           party m = c_username c \<and>
           (\<forall>m' \<in> set (messages d). to_or_from_admin m' \<and> party m' = c_username c \<longrightarrow>
              not_later m' m)"
proof -
  from assms have "map_of (fst (foldl group_step ([], False) (admin_messages d))) (c_username c) = Some c"
    by (simp add: getAllUsersWithMessages_def grouped_entry)
  from grouped_lastMessage [OF sorted_admin_messages this] show ?thesis
    unfolding set_admin_messages by blast
qed

lemma getAllUsersWithMessages_usernames:
  assumes "\<forall>m \<in> set (messages d). to_or_from_admin m \<longrightarrow> party m \<notin> set object_prototype_keys"
  shows "set (map c_username (getAllUsersWithMessages d)) =
           party ` {m \<in> set (messages d). to_or_from_admin m}"
proof -
  have inv: "group_inv (admin_messages d) (foldl group_step ([], False) (admin_messages d))"
    by (rule group_inv_foldl)
  from assms have "\<forall>m \<in> set (admin_messages d). party m \<notin> set object_prototype_keys"
    by (simp add: set_admin_messages)
  from grouped_keys [OF this]
  have keys: "fst ` set (grouped (admin_messages d)) = party ` set (admin_messages d)"
    by (simp add: grouped_def)
  have "set (map c_username (getAllUsersWithMessages d)) = fst ` set (grouped (admin_messages d))"
  proof -
    have "c_username c = k" if "(k, c) \<in> set (grouped (admin_messages d))" for k c
    proof -
      from inv have "distinct (map fst (grouped (admin_messages d)))"
        by (simp add: group_inv_def grouped_def)
      with that have "map_of (grouped (admin_messages d)) k = Some c" by simp
      with inv show ?thesis by (auto simp: group_inv_def grouped_def)
    qed
    then show ?thesis
      by (force simp: getAllUsersWithMessages_def image_iff)
  qed
  with keys show ?thesis by (simp add: set_admin_messages)
qed

section \<open>The socket id\<close>

text \<open>
  The decimal numeral determines the clock, so the id built when a socket closes is the id
  stored at its join only if the clock has not moved in between.
\<close>

lemma digit_value: "d < 10 \<Longrightarrow> of_char (digit d) - 48 = (d::nat)"
proof -
  assume "d < 10"
  then have "d \<in> set [0..<10]" by simp
  also have "[0..<10] = [0, 1, 2, 3, 4, 5, 6, 7, 8, 9::nat]" by code_simp
  finally show ?thesis
    by (auto simp: digit_def)
qed

lemma undecimal_decimal: "undecimal (decimal n) = n"
proof (induction n rule: decimal.induct)
  case (1 n)
  show ?case
  proof (cases "n < 10")
    case True
    then show ?thesis
      by (subst decimal.simps) (simp add: undecimal_def digit_value)
  next
    case False
    with 1 have "undecimal (decimal (n div 10)) = n div 10" by simp
    with False show ?thesis
      by (subst decimal.simps) (simp add: undecimal_def digit_value)
  qed
qed

lemma decimal_inject: "decimal a = decimal b \<Longrightarrow> a = b"
  by (metis undecimal_decimal)

lemma socketId_of_inject: "socketId_of name a = socketId_of name b \<Longrightarrow> a = b"
  by (simp add: socketId_of_def decimal_inject)

lemma on_close_keeps_record_of_other_clock:
  assumes "map_of (connections s) sock = Some info"
      and "ou \<in> set (onlineUsers (store s))"
      and "socketId ou = socketId_of (username info) t"
      and "t \<noteq> now e"
  shows "ou \<in> set (onlineUsers (store (fst (on_close e s sock))))"
  using assms
  by (auto simp: on_close_def removeOnlineUser_def dest: socketId_of_inject)

lemma handle_join_adds_record:
  assumes "\<And>call. \<not> rejects e call"
  shows "\<exists>ou \<in> set (onlineUsers (store (fst (handle_join e s sock (Some p))))).
           socketId ou = socketId_of (j_username p) (now e) \<and> o_username ou = j_username p"
  using assms
  by (auto simp: handle_join_def Let_def addOnlineUser_def createUser_def getUserByUsername_def
        find_None_iff split: option.splits prod.splits if_splits)

lemma handle_join_registered:
  "map_of (connections (fst (handle_join e s sock (Some p)))) sock =
     Some \<lparr>username = j_username p, isAdmin = j_isAdmin p, roomId = j_roomId p\<rparr>"
  by (auto simp: handle_join_def Let_def update_conv' split: option.splits prod.splits)

lemma join_then_close_leaves_record:
  assumes "\<And>call. \<not> rejects e1 call"
      and "now e2 \<noteq> now e1"
  shows "\<exists>ou \<in> set (onlineUsers (store (fst (on_close e2 (fst (handle_join e1 s sock (Some p))) sock)))).
           socketId ou = socketId_of (j_username p) (now e1) \<and> o_username ou = j_username p"
proof -
  from handle_join_adds_record [OF assms(1), of s sock p]
  obtain ou where ou: "ou \<in> set (onlineUsers (store (fst (handle_join e1 s sock (Some p)))))"
    "socketId ou = socketId_of (j_username p) (now e1)" "o_username ou = j_username p"
    by blast
  have "ou \<in> set (onlineUsers (store (fst (on_close e2 (fst (handle_join e1 s sock (Some p))) sock))))"
    using handle_join_registered ou(1)
  proof (rule on_close_keeps_record_of_other_clock)
    show "socketId ou = socketId_of (username \<lparr>username = j_username p, isAdmin = j_isAdmin p,
         roomId = j_roomId p\<rparr>) (now e1)"
      using ou(2) by simp
    show "now e1 \<noteq> now e2" using assms(2) by simp
  qed
  with ou show ?thesis by blast
qed

section \<open>Session lifecycle\<close>

text \<open>
  C1. A connection that joined got a presence record whose \<^verbatim>\<open>socketId\<close> is its username,
  a dash and the clock at the join. The claim is that closing the connection deletes that
  record. The \<^verbatim>\<open>close\<close> handler builds the id to delete from the clock at the close, so
  the record stays: alice joins on socket 1 at clock 1000 and the socket closes at clock 2000;
  afterwards the registry is empty, and the presence record \<^verbatim>\<open>alice-1000\<close> is still stored,
  so alice still counts as online. (By \<open>join_then_close_leaves_record\<close> it is so whenever
  the clock has moved between the join and the close.)
\<close>

theorem close_leaves_presence_record:
  "map socketId (onlineUsers (store alice_joined)) = [''alice-1000''] \<and>
   connections (fst (on_close (env_at 2000) alice_joined 1)) = [] \<and>
   snd (on_close (env_at 2000) alice_joined 1) = [Write RemoveOnlineUser] \<and>
   map socketId (onlineUsers (store (fst (on_close (env_at 2000) alice_joined 1)))) =
     [''alice-1000''] \<and>
   map o_username (onlineUsers (store (fst (on_close (env_at 2000) alice_joined 1)))) =
     [''alice'']"
  by code_simp

text \<open>
  C8, as the code has it. A join that carries a \<^verbatim>\<open>data\<close> object never fails to register:
  whatever the state, the clock and the database do, and whether the socket is fresh or
  already registered, afterwards the socket is bound to exactly the identity of the payload,
  and every other socket keeps the identity it had. No check on the username is made: it may
  be bound to other sockets already. The one join that registers nothing is a join frame
  without \<^verbatim>\<open>data\<close>: it throws before the registry is touched, the error is logged, and the
  state is as it was.
\<close>

theorem join_always_registers:
  "map_of (connections (fst (handle_join e s sock (Some p)))) sock =
     Some \<lparr>username = j_username p, isAdmin = j_isAdmin p, roomId = j_roomId p\<rparr> \<and>
   (\<forall>c. c \<noteq> sock \<longrightarrow>
      map_of (connections (fst (handle_join e s sock (Some p)))) c = map_of (connections s) c) \<and>
   handle_join e s sock None = (s, [ConsoleError])"
  by (auto simp: handle_join_def Let_def update_conv' split: option.splits prod.splits)

theorem join_always_registers_witness:
  "map_of (connections four_sockets) 1 = Some alice \<and>
   map_of (connections (fst (handle_join (env_down 7) four_sockets 1
      (Some \<lparr>j_username = ''bob'', j_isAdmin = False, j_roomId = ''bob''\<rparr>)))) 1 = Some bob \<and>
   (4::nat) \<noteq> 1 \<and>
   map_of (connections (fst (handle_join (env_down 7) four_sockets 1
      (Some \<lparr>j_username = ''bob'', j_isAdmin = False, j_roomId = ''bob''\<rparr>)))) 4 = Some bob \<and>
   handle_join (env_at 7) four_sockets 1 None = (four_sockets, [ConsoleError])"
proof -
  have before: "map_of (connections four_sockets) 1 = Some alice"
    "map_of (connections four_sockets) 4 = Some bob"
    by (simp_all add: four_sockets_def)
  have payload: "\<lparr>username = j_username \<lparr>j_username = ''bob'', j_isAdmin = False, j_roomId = ''bob''\<rparr>,
      isAdmin = j_isAdmin \<lparr>j_username = ''bob'', j_isAdmin = False, j_roomId = ''bob''\<rparr>,
      roomId = j_roomId \<lparr>j_username = ''bob'', j_isAdmin = False, j_roomId = ''bob''\<rparr>\<rparr> = bob"
    by (simp add: bob_def)
  from join_always_registers [of "env_down 7" four_sockets 1
      "\<lparr>j_username = ''bob'', j_isAdmin = False, j_roomId = ''bob''\<rparr>"]
    join_always_registers [of "env_at 7" four_sockets 1
      "\<lparr>j_username = ''bob'', j_isAdmin = False, j_roomId = ''bob''\<rparr>"]
  show ?thesis
    unfolding payload using before by simp
qed

text \<open>
  C8 as stated has the second join of a socket fail. It does not: alice is registered on
  socket 1, the same socket joins again as bob, the handler logs no error, replies with
  \<^verbatim>\<open>userJoined\<close>, and the socket is now bob's.
\<close>

theorem rejoin_is_no_error:
  "map_of (connections alice_joined) 1 = Some alice \<and>
   ConsoleError \<notin> set (snd (on_message (env_at 2000) alice_joined 1 (join_as ''bob'' False ''bob''))) \<and>
   Send 1 (UserJoined [] ''bob'') \<in>
     set (snd (on_message (env_at 2000) alice_joined 1 (join_as ''bob'' False ''bob''))) \<and>
   map_of (connections (fst (on_message (env_at 2000) alice_joined 1
     (join_as ''bob'' False ''bob'')))) 1 = Some bob"
  by code_simp

section \<open>Message routing\<close>

text \<open>
  C2. A message event from a registered sender that passes the schema and is stored appends
  one message \<open>m\<close> to the table; apart from that write the handler only sends \<open>m\<close>; and a
  socket receives \<open>m\<close> exactly once if its transport is open and its identity is in the
  fan-out set, and not at all otherwise. The fan-out set is, for an admin sender, the
  identities whose username is the event's \<^verbatim>\<open>targetUsername\<close> or that are admin with the
  sender's username; for a user sender, the identities that are admin or have the sender's
  username. The registry is a \<^verbatim>\<open>Map\<close>, so its keys are distinct.
\<close>

theorem message_fanout:
  assumes "distinct (map fst (connections s))"
      and "map_of (connections s) sock = Some sender"
      and "insertMessageSchema_parse (md_roomId p) (JString (username sender))
             (if isAdmin sender then md_targetUsername p else JString ''admin'')
             (md_message p) = Some v"
      and "\<not> rejects e CreateMessage"
  shows "\<exists>m. messages (store (fst (handle_message e s sock p))) = messages (store s) @ [m] \<and>
           (\<forall>x \<in> set (snd (handle_message e s sock p)).
              x = Write CreateMessage \<or> (\<exists>c. x = Send c (MessageEvent m))) \<and>
           (\<forall>c out. count_list (snd (handle_message e s sock p)) (Send c out) =
              (if out = MessageEvent m \<and> readyState e c = OPEN \<and>
                  (\<exists>i. map_of (connections s) c = Some i \<and>
                     (if isAdmin sender
                      then JString (username i) = md_targetUsername p \<or>
                           (isAdmin i \<and> username i = username sender)
                      else isAdmin i \<or> username i = username sender))
               then 1 else 0))"
proof (cases "isAdmin sender")
  case True
  with assms show ?thesis
    by (auto simp: handle_message_def createMessage_def Let_def forEach_send_count
             dest: forEach_send_only_sends)
next
  case False
  with assms show ?thesis
    by (auto simp: handle_message_def createMessage_def Let_def forEach_send_count
             dest: forEach_send_only_sends)
qed

theorem message_fanout_witness:
  "(distinct (map fst (connections four_sockets))) \<and>
   (map_of (connections four_sockets) 1 = Some alice) \<and>
   (insertMessageSchema_parse (md_roomId (say ''alice'' JUndefined ''hi'')) (JString (username alice))
             (if isAdmin alice then md_targetUsername (say ''alice'' JUndefined ''hi'') else JString ''admin'')
             (md_message (say ''alice'' JUndefined ''hi'')) = Some \<lparr>im_roomId = ''alice'', im_senderUsername = ''alice'', im_receiverUsername = ''admin'', im_message = ''hi''\<rparr>) \<and>
   (\<not> rejects (env_tab2_closing 10) CreateMessage) \<and>
   (\<exists>m. messages (store (fst (handle_message (env_tab2_closing 10) four_sockets 1 (say ''alice'' JUndefined ''hi'')))) = messages (store four_sockets) @ [m] \<and>
           (\<forall>x \<in> set (snd (handle_message (env_tab2_closing 10) four_sockets 1 (say ''alice'' JUndefined ''hi''))).
              x = Write CreateMessage \<or> (\<exists>c. x = Send c (MessageEvent m))) \<and>
           (\<forall>c out. count_list (snd (handle_message (env_tab2_closing 10) four_sockets 1 (say ''alice'' JUndefined ''hi''))) (Send c out) =
              (if out = MessageEvent m \<and> readyState (env_tab2_closing 10) c = OPEN \<and>
                  (\<exists>i. map_of (connections four_sockets) c = Some i \<and>
                     (if isAdmin alice
                      then JString (username i) = md_targetUsername (say ''alice'' JUndefined ''hi'') \<or>
                           (isAdmin i \<and> username i = username alice)
                      else isAdmin i \<or> username i = username alice))
               then 1 else 0)))"
proof -
  have h1: "distinct (map fst (connections four_sockets))"
    by code_simp
  have h2: "map_of (connections four_sockets) 1 = Some alice"
    by code_simp
  have h3: "insertMessageSchema_parse (md_roomId (say ''alice'' JUndefined ''hi'')) (JString (username alice))
             (if isAdmin alice then md_targetUsername (say ''alice'' JUndefined ''hi'') else JString ''admin'')
             (md_message (say ''alice'' JUndefined ''hi'')) = Some \<lparr>im_roomId = ''alice'', im_senderUsername = ''alice'', im_receiverUsername = ''admin'', im_message = ''hi''\<rparr>"
    by code_simp
  have h4: "\<not> rejects (env_tab2_closing 10) CreateMessage"
    by code_simp
  have c: "\<exists>m. messages (store (fst (handle_message (env_tab2_closing 10) four_sockets 1 (say ''alice'' JUndefined ''hi'')))) = messages (store four_sockets) @ [m] \<and>
           (\<forall>x \<in> set (snd (handle_message (env_tab2_closing 10) four_sockets 1 (say ''alice'' JUndefined ''hi''))).
              x = Write CreateMessage \<or> (\<exists>c. x = Send c (MessageEvent m))) \<and>
           (\<forall>c out. count_list (snd (handle_message (env_tab2_closing 10) four_sockets 1 (say ''alice'' JUndefined ''hi''))) (Send c out) =
              (if out = MessageEvent m \<and> readyState (env_tab2_closing 10) c = OPEN \<and>
                  (\<exists>i. map_of (connections four_sockets) c = Some i \<and>
                     (if isAdmin alice
                      then JString (username i) = md_targetUsername (say ''alice'' JUndefined ''hi'') \<or>
                           (isAdmin i \<and> username i = username alice)
                      else isAdmin i \<or> username i = username alice))
               then 1 else 0))"
    using h1 h2 h3 h4 by (rule message_fanout)
  show ?thesis
    by (rule conjI [OF h1 conjI [OF h2 conjI [OF h3 conjI [OF h4 c]]]])
qed

text \<open>
  C3. A message event either leaves the message table as it is or appends one message. The
  appended message has the sending connection's username as sender. If that connection is a
  User, the receiver is the literal \<^verbatim>\<open>admin\<close>; if it is Admin, the receiver is the event's
  \<^verbatim>\<open>targetUsername\<close>, which is not \<^verbatim>\<open>admin\<close> unless the admin targeted that name. So no
  stored message goes from a User connection to a receiver other than \<^verbatim>\<open>admin\<close>: the sender
  is an Admin connection or the receiver is \<^verbatim>\<open>admin\<close>. (Being admin is the role of the
  sending connection; for the receiver, of which the message has only the name, it is the
  name \<^verbatim>\<open>admin\<close>.)
\<close>

theorem receiver_by_role:
  assumes "map_of (connections s) sock = Some sender"
  shows "messages (store (fst (handle_message e s sock p))) = messages (store s) \<or>
         (\<exists>m. messages (store (fst (handle_message e s sock p))) = messages (store s) @ [m] \<and>
            senderUsername m = username sender \<and>
            (\<not> isAdmin sender \<longrightarrow> receiverUsername m = ''admin'') \<and>
            (isAdmin sender \<longrightarrow>
               JString (receiverUsername m) = md_targetUsername p \<and>
               (md_targetUsername p \<noteq> JString ''admin'' \<longrightarrow> receiverUsername m \<noteq> ''admin'')) \<and>
            (isAdmin sender \<or> receiverUsername m = ''admin''))"
  using assms
  by (auto simp: handle_message_def createMessage_def Let_def insertMessageSchema_parse_def
           split: option.splits json.splits)

theorem receiver_by_role_witness:
  "map_of (connections four_sockets) 3 = Some admin \<and>
   isAdmin admin \<and>
   md_targetUsername (say ''alice'' (JString ''alice'') ''hi'') \<noteq> JString ''admin'' \<and>
   messages (store (fst (handle_message (env_at 9) four_sockets 3
       (say ''alice'' (JString ''alice'') ''hi'')))) \<noteq> messages (store four_sockets) \<and>
   (\<exists>m. messages (store (fst (handle_message (env_at 9) four_sockets 3
             (say ''alice'' (JString ''alice'') ''hi'')))) = messages (store four_sockets) @ [m] \<and>
        senderUsername m = username admin \<and>
        JString (receiverUsername m) = md_targetUsername (say ''alice'' (JString ''alice'') ''hi'') \<and>
        receiverUsername m \<noteq> ''admin'')"
proof -
  have h1: "map_of (connections four_sockets) 3 = Some admin"
    by code_simp
  have adm: "isAdmin admin"
    by code_simp
  have target: "md_targetUsername (say ''alice'' (JString ''alice'') ''hi'') \<noteq> JString ''admin''"
    by code_simp
  have stored: "messages (store (fst (handle_message (env_at 9) four_sockets 3
       (say ''alice'' (JString ''alice'') ''hi'')))) \<noteq> messages (store four_sockets)"
    by code_simp
  from receiver_by_role [OF h1, of "env_at 9" "say ''alice'' (JString ''alice'') ''hi''"]
    adm target stored
  have "\<exists>m. messages (store (fst (handle_message (env_at 9) four_sockets 3
             (say ''alice'' (JString ''alice'') ''hi'')))) = messages (store four_sockets) @ [m] \<and>
        senderUsername m = username admin \<and>
        JString (receiverUsername m) = md_targetUsername (say ''alice'' (JString ''alice'') ''hi'') \<and>
        receiverUsername m \<noteq> ''admin''"
    by blast
  with h1 adm target stored show ?thesis
    by (intro conjI)
qed

text \<open>
  C5. If the store rejects the write, the message table is unchanged and the handler sends
  nothing, to the sender or to anyone else (the \<^verbatim>\<open>catch\<close> block only logs). And whenever the
  handler sends anything, the first thing it did was the completed write, once, and what it
  sends is the message that is now the last row of the table.
\<close>

theorem persist_then_deliver:
  "(rejects e CreateMessage \<longrightarrow>
      store (fst (handle_message e s sock p)) = store s \<and>
      (\<forall>c out. Send c out \<notin> set (snd (handle_message e s sock p)))) \<and>
   (\<forall>c out. Send c out \<in> set (snd (handle_message e s sock p)) \<longrightarrow>
      (\<exists>m rest. snd (handle_message e s sock p) = Write CreateMessage # rest \<and>
         Write CreateMessage \<notin> set rest \<and> out = MessageEvent m \<and>
         messages (store (fst (handle_message e s sock p))) = messages (store s) @ [m]))"
  by (auto simp: handle_message_def createMessage_def Let_def
           split: option.splits dest: forEach_send_only_sends)

theorem persist_then_deliver_witness:
  "rejects (env_down 5) CreateMessage \<and>
   store (fst (handle_message (env_down 5) four_sockets 1 (say ''alice'' JUndefined ''hi''))) =
     store four_sockets \<and>
   (\<forall>c out. Send c out \<notin>
      set (snd (handle_message (env_down 5) four_sockets 1 (say ''alice'' JUndefined ''hi'')))) \<and>
   snd (handle_message (env_down 5) four_sockets 1 (say ''alice'' JUndefined ''hi'')) =
     [ConsoleError] \<and>
   Send 3 (MessageEvent \<lparr>m_id = 1, m_roomId = ''alice'', senderUsername = ''alice'',
        receiverUsername = ''admin'', m_message = ''hi'', timestamp = Some 5, isRead = False\<rparr>)
     \<in> set (snd (handle_message (env_at 5) four_sockets 1 (say ''alice'' JUndefined ''hi''))) \<and>
   (\<exists>rest. snd (handle_message (env_at 5) four_sockets 1 (say ''alice'' JUndefined ''hi'')) =
       Write CreateMessage # rest \<and> Write CreateMessage \<notin> set rest)"
proof -
  have down: "rejects (env_down 5) CreateMessage"
    by code_simp
  have logs: "snd (handle_message (env_down 5) four_sockets 1 (say ''alice'' JUndefined ''hi'')) =
     [ConsoleError]"
    by code_simp
  have sent: "Send 3 (MessageEvent \<lparr>m_id = 1, m_roomId = ''alice'', senderUsername = ''alice'',
        receiverUsername = ''admin'', m_message = ''hi'', timestamp = Some 5, isRead = False\<rparr>)
     \<in> set (snd (handle_message (env_at 5) four_sockets 1 (say ''alice'' JUndefined ''hi'')))"
    by code_simp
  from persist_then_deliver [of "env_down 5" four_sockets 1 "say ''alice'' JUndefined ''hi''"] down
  have 1: "store (fst (handle_message (env_down 5) four_sockets 1 (say ''alice'' JUndefined ''hi''))) =
     store four_sockets \<and>
   (\<forall>c out. Send c out \<notin>
      set (snd (handle_message (env_down 5) four_sockets 1 (say ''alice'' JUndefined ''hi''))))"
    by blast
  from persist_then_deliver [of "env_at 5" four_sockets 1 "say ''alice'' JUndefined ''hi''"] sent
  have 2: "\<exists>rest. snd (handle_message (env_at 5) four_sockets 1 (say ''alice'' JUndefined ''hi'')) =
       Write CreateMessage # rest \<and> Write CreateMessage \<notin> set rest"
    by blast
  from down logs sent 1 2 show ?thesis
    by (intro conjI) blast+
qed

section \<open>Typing indicators\<close>

text \<open>
  C9, as the code has it. A typing event from a registered connection changes nothing in the
  registry or the database. When it carries a \<^verbatim>\<open>data\<close> object the handler does nothing but
  send: from a User, the payload with the sender's username, the \<^verbatim>\<open>isTyping\<close> field and the
  sender's room goes exactly once to every open Admin connection and to no other socket; from
  an Admin, the payload with the admin's username and the \<^verbatim>\<open>isTyping\<close> field goes exactly
  once to every open connection whose username is the event's \<^verbatim>\<open>targetUsername\<close> and to no
  other socket; no other payload is sent. When it carries no \<^verbatim>\<open>data\<close>, nothing is sent
  to anyone.
\<close>

theorem typing_fanout:
  assumes "distinct (map fst (connections s))"
      and "map_of (connections s) sock = Some sender"
  shows "fst (handle_typing e s sock data) = s \<and>
         (\<forall>x \<in> set (snd (handle_typing e s sock (Some p))). \<exists>c out. x = Send c out) \<and>
         (\<forall>c out. count_list (snd (handle_typing e s sock (Some p))) (Send c out) =
            (if readyState e c = OPEN \<and>
                (\<exists>i. map_of (connections s) c = Some i \<and>
                   (if isAdmin sender
                    then JString (username i) = td_targetUsername p \<and>
                         out = TypingEvent (username sender) (td_isTyping p) None
                    else isAdmin i \<and>
                         out = TypingEvent (username sender) (td_isTyping p)
                                 (Some (roomId sender))))
             then 1 else 0)) \<and>
         (\<forall>c out. Send c out \<notin> set (snd (handle_typing e s sock None)))"
proof -
  have 1: "fst (handle_typing e s sock data) = s"
    using assms(2) by (cases data) (simp_all add: handle_typing_def)
  have 2: "\<forall>x \<in> set (snd (handle_typing e s sock (Some p))). \<exists>c out. x = Send c out"
    using assms(2) by (auto simp: handle_typing_def dest: forEach_send_only_sends)
  have 3: "\<forall>c out. count_list (snd (handle_typing e s sock (Some p))) (Send c out) =
            (if readyState e c = OPEN \<and>
                (\<exists>i. map_of (connections s) c = Some i \<and>
                   (if isAdmin sender
                    then JString (username i) = td_targetUsername p \<and>
                         out = TypingEvent (username sender) (td_isTyping p) None
                    else isAdmin i \<and>
                         out = TypingEvent (username sender) (td_isTyping p)
                                 (Some (roomId sender))))
             then 1 else 0)"
    using assms by (auto simp: handle_typing_def forEach_send_count)
  have 4: "\<forall>c out. Send c out \<notin> set (snd (handle_typing e s sock None))"
    using assms(2) by (simp add: handle_typing_def)
  from 1 2 3 4 show ?thesis by (intro conjI)
qed

theorem typing_fanout_witness:
  "distinct (map fst (connections four_sockets)) \<and>
   map_of (connections four_sockets) 3 = Some admin \<and>
   fst (handle_typing (env_tab2_closing 12) four_sockets 3
          (Some \<lparr>td_targetUsername = JString ''alice'', td_isTyping = JBool True\<rparr>)) =
     four_sockets \<and>
   count_list (snd (handle_typing (env_tab2_closing 12) four_sockets 3
          (Some \<lparr>td_targetUsername = JString ''alice'', td_isTyping = JBool True\<rparr>)))
     (Send 1 (TypingEvent ''admin'' (JBool True) None)) = 1 \<and>
   count_list (snd (handle_typing (env_tab2_closing 12) four_sockets 3
          (Some \<lparr>td_targetUsername = JString ''alice'', td_isTyping = JBool True\<rparr>)))
     (Send 2 (TypingEvent ''admin'' (JBool True) None)) = 0 \<and>
   count_list (snd (handle_typing (env_tab2_closing 12) four_sockets 3
          (Some \<lparr>td_targetUsername = JString ''alice'', td_isTyping = JBool True\<rparr>)))
     (Send 4 (TypingEvent ''admin'' (JBool True) None)) = 0 \<and>
   (\<forall>c out. Send c out \<notin> set (snd (handle_typing (env_tab2_closing 12) four_sockets 3 None)))"
proof -
  have h1: "distinct (map fst (connections four_sockets))"
    by code_simp
  have h2: "map_of (connections four_sockets) 3 = Some admin"
    by code_simp
  note c = typing_fanout [OF h1 h2, of "env_tab2_closing 12"
      "Some \<lparr>td_targetUsername = JString ''alice'', td_isTyping = JBool True\<rparr>"
      "\<lparr>td_targetUsername = JString ''alice'', td_isTyping = JBool True\<rparr>"]
  have k: "count_list (snd (handle_typing (env_tab2_closing 12) four_sockets 3
          (Some \<lparr>td_targetUsername = JString ''alice'', td_isTyping = JBool True\<rparr>)))
     (Send x (TypingEvent ''admin'' (JBool True) None)) =
       (if x = 1 then 1 else 0)" if "x = 1 \<or> x = 2 \<or> x = 4" for x
    using c [THEN conjunct2, THEN conjunct2, THEN conjunct1, rule_format, of x
        "TypingEvent ''admin'' (JBool True) None"] that
    by (auto simp: four_sockets_def env_tab2_closing_def admin_def alice_def bob_def)
  from h1 h2 c [THEN conjunct1] k [of 1] k [of 2] k [of 4]
    c [THEN conjunct2, THEN conjunct2, THEN conjunct2]
  show ?thesis
    by simp
qed

text \<open>
  C9 as stated has every typing event of a registered User reach every open Admin
  connection. A typing frame without \<^verbatim>\<open>data\<close> reaches nobody: alice is registered on socket
  1, the admin is registered on socket 3 and its transport is open, alice's socket sends such
  a frame, and the handler only logs the error.
\<close>

theorem typing_without_data_reaches_nobody:
  "map_of (connections four_sockets) 1 = Some alice \<and>
   map_of (connections four_sockets) 3 = Some admin \<and>
   isAdmin admin \<and>
   readyState (env_at 12) 3 = OPEN \<and>
   on_message (env_at 12) four_sockets 1 (Typing None) = (four_sockets, [ConsoleError])"
  by code_simp

section \<open>Help requests\<close>

text \<open>
  C10. A POST to \<^verbatim>\<open>/api/help-requests\<close> whose body passes the schema and whose insert the
  store accepts appends one record \<open>h\<close> with the body's username, room and message to the
  table, then sends the \<^verbatim>\<open>helpRequest\<close> event carrying \<open>h\<close> exactly once to every open Admin
  connection and nothing to any other socket, and answers with \<open>h\<close>.
\<close>

theorem help_request_notifies_admins:
  assumes "distinct (map fst (connections s))"
      and "insertHelpRequestSchema_parse body = Some v"
      and "\<not> rejects e CreateHelpRequest"
  shows "\<exists>h rest.
           post_help_requests e s body =
             (s\<lparr>store := (store s)\<lparr>helpRequests := helpRequests (store s) @ [h],
                                   helpRequests_seq := helpRequests_seq (store s) + 1\<rparr>\<rparr>,
              Write CreateHelpRequest # rest, Json h) \<and>
           h_username h = ih_username v \<and> h_roomId h = ih_roomId v \<and>
           h_message h = ih_message v \<and>
           (\<forall>x \<in> set rest. \<exists>c. x = Send c (HelpRequestEvent h)) \<and>
           (\<forall>c out. count_list rest (Send c out) =
              (if out = HelpRequestEvent h \<and> readyState e c = OPEN \<and>
                  (\<exists>i. map_of (connections s) c = Some i \<and> isAdmin i)
               then 1 else 0))"
  using assms
  by (auto simp: post_help_requests_def createHelpRequest_def Let_def forEach_send_count
           dest: forEach_send_only_sends)

theorem help_request_notifies_admins_witness:
  "(distinct (map fst (connections four_sockets))) \<and>
   (insertHelpRequestSchema_parse help_body = Some \<lparr>ih_username = ''bob'', ih_roomId = ''bob'', ih_message = ''help'', ih_status = None\<rparr>) \<and>
   (\<not> rejects (env_at 11) CreateHelpRequest) \<and>
   (\<exists>h rest.
           post_help_requests (env_at 11) four_sockets help_body =
             (four_sockets\<lparr>store := (store four_sockets)\<lparr>helpRequests := helpRequests (store four_sockets) @ [h],
                                   helpRequests_seq := helpRequests_seq (store four_sockets) + 1\<rparr>\<rparr>,
              Write CreateHelpRequest # rest, Json h) \<and>
           h_username h = ih_username \<lparr>ih_username = ''bob'', ih_roomId = ''bob'', ih_message = ''help'', ih_status = None\<rparr> \<and> h_roomId h = ih_roomId \<lparr>ih_username = ''bob'', ih_roomId = ''bob'', ih_message = ''help'', ih_status = None\<rparr> \<and>
           h_message h = ih_message \<lparr>ih_username = ''bob'', ih_roomId = ''bob'', ih_message = ''help'', ih_status = None\<rparr> \<and>
           (\<forall>x \<in> set rest. \<exists>c. x = Send c (HelpRequestEvent h)) \<and>
           (\<forall>c out. count_list rest (Send c out) =
              (if out = HelpRequestEvent h \<and> readyState (env_at 11) c = OPEN \<and>
                  (\<exists>i. map_of (connections four_sockets) c = Some i \<and> isAdmin i)
               then 1 else 0)))"
proof -
  have h1: "distinct (map fst (connections four_sockets))"
    by code_simp
  have h2: "insertHelpRequestSchema_parse help_body = Some \<lparr>ih_username = ''bob'', ih_roomId = ''bob'', ih_message = ''help'', ih_status = None\<rparr>"
    by code_simp
  have h3: "\<not> rejects (env_at 11) CreateHelpRequest"
    by code_simp
  have c: "\<exists>h rest.
           post_help_requests (env_at 11) four_sockets help_body =
             (four_sockets\<lparr>store := (store four_sockets)\<lparr>helpRequests := helpRequests (store four_sockets) @ [h],
                                   helpRequests_seq := helpRequests_seq (store four_sockets) + 1\<rparr>\<rparr>,
              Write CreateHelpRequest # rest, Json h) \<and>
           h_username h = ih_username \<lparr>ih_username = ''bob'', ih_roomId = ''bob'', ih_message = ''help'', ih_status = None\<rparr> \<and> h_roomId h = ih_roomId \<lparr>ih_username = ''bob'', ih_roomId = ''bob'', ih_message = ''help'', ih_status = None\<rparr> \<and>
           h_message h = ih_message \<lparr>ih_username = ''bob'', ih_roomId = ''bob'', ih_message = ''help'', ih_status = None\<rparr> \<and>
           (\<forall>x \<in> set rest. \<exists>c. x = Send c (HelpRequestEvent h)) \<and>
           (\<forall>c out. count_list rest (Send c out) =
              (if out = HelpRequestEvent h \<and> readyState (env_at 11) c = OPEN \<and>
                  (\<exists>i. map_of (connections four_sockets) c = Some i \<and> isAdmin i)
               then 1 else 0))"
    using h1 h2 h3 by (rule help_request_notifies_admins)
  show ?thesis
    by (rule conjI [OF h1 conjI [OF h2 conjI [OF h3 c]]])
qed

section \<open>Mark as read\<close>

text \<open>
  C6, as the code has it. A \<^verbatim>\<open>markAsRead\<close> event of a registered reader for a room keeps
  the message table row for row; a message of that room whose receiver is the reader's
  username gets \<^verbatim>\<open>isRead\<close> set and is otherwise unchanged; every other message, that is every
  message of another room and every message addressed to somebody else (those the reader
  sent to somebody else among them), is unchanged.
\<close>

theorem markAsRead_scope:
  assumes "map_of (connections s) sock = Some reader"
      and "\<not> rejects e MarkMessagesAsRead"
  shows "length (messages (store (fst (handle_markAsRead e s sock rd)))) =
           length (messages (store s)) \<and>
         (\<forall>i < length (messages (store s)).
            (m_roomId (messages (store s) ! i) = rd_roomId rd \<and>
             receiverUsername (messages (store s) ! i) = username reader \<longrightarrow>
               messages (store (fst (handle_markAsRead e s sock rd))) ! i =
                 (messages (store s) ! i)\<lparr>isRead := True\<rparr>) \<and>
            (m_roomId (messages (store s) ! i) \<noteq> rd_roomId rd \<or>
             receiverUsername (messages (store s) ! i) \<noteq> username reader \<longrightarrow>
               messages (store (fst (handle_markAsRead e s sock rd))) ! i =
                 messages (store s) ! i))"
  using assms
  by (auto simp: handle_markAsRead_def markMessagesAsRead_def)

theorem markAsRead_scope_witness:
  "map_of (connections alice_two_rooms) 3 = Some admin \<and>
   \<not> rejects (env_at 6) MarkMessagesAsRead \<and>
   length (messages (store (fst (handle_markAsRead (env_at 6) alice_two_rooms 3
      \<lparr>rd_roomId = ''alice''\<rparr>)))) = length (messages (store alice_two_rooms)) \<and>
   0 < length (messages (store alice_two_rooms)) \<and>
   m_roomId (messages (store alice_two_rooms) ! 0) = rd_roomId \<lparr>rd_roomId = ''alice''\<rparr> \<and>
   receiverUsername (messages (store alice_two_rooms) ! 0) = username admin \<and>
   messages (store (fst (handle_markAsRead (env_at 6) alice_two_rooms 3
      \<lparr>rd_roomId = ''alice''\<rparr>))) ! 0 = (messages (store alice_two_rooms) ! 0)\<lparr>isRead := True\<rparr> \<and>
   1 < length (messages (store alice_two_rooms)) \<and>
   m_roomId (messages (store alice_two_rooms) ! 1) \<noteq> rd_roomId \<lparr>rd_roomId = ''alice''\<rparr> \<and>
   messages (store (fst (handle_markAsRead (env_at 6) alice_two_rooms 3
      \<lparr>rd_roomId = ''alice''\<rparr>))) ! 1 = messages (store alice_two_rooms) ! 1"
proof -
  have h1: "map_of (connections alice_two_rooms) 3 = Some admin"
    by code_simp
  have h2: "\<not> rejects (env_at 6) MarkMessagesAsRead"
    by code_simp
  have a0: "0 < length (messages (store alice_two_rooms))"
    and a1: "1 < length (messages (store alice_two_rooms))"
    by code_simp+
  have r0: "m_roomId (messages (store alice_two_rooms) ! 0) = rd_roomId \<lparr>rd_roomId = ''alice''\<rparr>"
    and u0: "receiverUsername (messages (store alice_two_rooms) ! 0) = username admin"
    and r1: "m_roomId (messages (store alice_two_rooms) ! 1) \<noteq> rd_roomId \<lparr>rd_roomId = ''alice''\<rparr>"
    by code_simp+
  note c = markAsRead_scope [OF h1 h2, of "\<lparr>rd_roomId = ''alice''\<rparr>"]
  from c a0 r0 u0 have m0: "messages (store (fst (handle_markAsRead (env_at 6) alice_two_rooms 3
      \<lparr>rd_roomId = ''alice''\<rparr>))) ! 0 = (messages (store alice_two_rooms) ! 0)\<lparr>isRead := True\<rparr>"
    by blast
  from c a1 r1 have m1: "messages (store (fst (handle_markAsRead (env_at 6) alice_two_rooms 3
      \<lparr>rd_roomId = ''alice''\<rparr>))) ! 1 = messages (store alice_two_rooms) ! 1"
    by blast
  from h1 h2 c [THEN conjunct1] a0 r0 u0 m0 a1 r1 m1 show ?thesis
    by (intro conjI)
qed

text \<open>
  C6 as stated also has every message the reader sent keep its flag. A message the reader
  sent to its own name does not: the admin's message to \<^verbatim>\<open>admin\<close> in room \<^verbatim>\<open>admin\<close> is
  unread, the admin marks the room read, and the message it sent is now read.
\<close>

theorem markAsRead_marks_own_message:
  "map_of (connections admin_wrote_to_admin) 1 = Some admin \<and>
   senderUsername (messages (store admin_wrote_to_admin) ! 0) = username admin \<and>
   isRead (messages (store admin_wrote_to_admin) ! 0) = False \<and>
   isRead (messages (store (fst (on_message (env_at 3) admin_wrote_to_admin 1
     (MarkAsRead (Some \<lparr>rd_roomId = ''admin''\<rparr>))))) ! 0) = True"
  by code_simp

text \<open>
  C7, as the code has it. For a registered reader and a store that accepts the update, a
  \<^verbatim>\<open>markAsRead\<close> event applies \<^verbatim>\<open>markMessagesAsRead\<close> for the room and the reader's username
  and logs no error; the same event once more leaves the state exactly as the first left it
  and logs no error either. Afterwards the unread count of every entry of the conversation
  list is the number of messages the entry's user had sent to \<^verbatim>\<open>admin\<close> that were unread
  before and that the event did not mark: all of them when the reader's username is not
  \<^verbatim>\<open>admin\<close>, and those stored under another room than the one marked when it is. So the
  count is 0 when the reader is \<^verbatim>\<open>admin\<close> and all unread messages of that user to
  \<^verbatim>\<open>admin\<close> carry the room marked, and otherwise only if the user had no unread message to
  \<^verbatim>\<open>admin\<close> before.
\<close>

theorem markAsRead_idempotent:
  assumes "map_of (connections s) sock = Some reader"
      and "\<not> rejects e1 MarkMessagesAsRead"
      and "\<not> rejects e2 MarkMessagesAsRead"
  shows "handle_markAsRead e1 s sock rd =
           (s\<lparr>store := markMessagesAsRead (store s) (rd_roomId rd) (username reader)\<rparr>,
            [Write MarkMessagesAsRead]) \<and>
         handle_markAsRead e2 (fst (handle_markAsRead e1 s sock rd)) sock rd =
           (fst (handle_markAsRead e1 s sock rd), [Write MarkMessagesAsRead]) \<and>
         (\<forall>c \<in> set (getAllUsersWithMessages (store (fst (handle_markAsRead e1 s sock rd)))).
            unreadCount c =
              length (filter (\<lambda>m. senderUsername m = c_username c \<and>
                                   receiverUsername m = ''admin'' \<and> \<not> isRead m \<and>
                                   \<not> (m_roomId m = rd_roomId rd \<and> username reader = ''admin''))
                        (messages (store s))))"
proof -
  let ?d = "markMessagesAsRead (store s) (rd_roomId rd) (username reader)"
  have first: "handle_markAsRead e1 s sock rd = (s\<lparr>store := ?d\<rparr>, [Write MarkMessagesAsRead])"
    using assms by (simp add: handle_markAsRead_def)
  have second: "handle_markAsRead e2 (s\<lparr>store := ?d\<rparr>) sock rd =
      (s\<lparr>store := ?d\<rparr>, [Write MarkMessagesAsRead])"
    using assms by (simp add: handle_markAsRead_def markMessagesAsRead_twice)
  have count: "unreadCount c =
      length (filter (\<lambda>m. senderUsername m = c_username c \<and> receiverUsername m = ''admin'' \<and>
                          \<not> isRead m \<and> \<not> (m_roomId m = rd_roomId rd \<and> username reader = ''admin''))
                (messages (store s)))"
    if "c \<in> set (getAllUsersWithMessages ?d)" for c
    using getAllUsersWithMessages_unreadCount [OF that]
    by (simp add: unread_after_markMessagesAsRead)
  show ?thesis
    unfolding first fst_conv second using count by simp
qed

theorem markAsRead_idempotent_witness:
  "map_of (connections alice_wrote_twice) 2 = Some admin \<and>
   \<not> rejects (env_at 6) MarkMessagesAsRead \<and>
   \<not> rejects (env_at 7) MarkMessagesAsRead \<and>
   snd (handle_markAsRead (env_at 6) alice_wrote_twice 2 \<lparr>rd_roomId = ''alice''\<rparr>) =
     [Write MarkMessagesAsRead] \<and>
   handle_markAsRead (env_at 7)
       (fst (handle_markAsRead (env_at 6) alice_wrote_twice 2 \<lparr>rd_roomId = ''alice''\<rparr>)) 2
       \<lparr>rd_roomId = ''alice''\<rparr> =
     (fst (handle_markAsRead (env_at 6) alice_wrote_twice 2 \<lparr>rd_roomId = ''alice''\<rparr>),
      [Write MarkMessagesAsRead]) \<and>
   username admin = ''admin'' \<and>
   map unreadCount (getAllUsersWithMessages (store alice_wrote_twice)) = [2] \<and>
   hd (getAllUsersWithMessages (store (fst (handle_markAsRead (env_at 6) alice_wrote_twice 2
         \<lparr>rd_roomId = ''alice''\<rparr>))))
     \<in> set (getAllUsersWithMessages (store (fst (handle_markAsRead (env_at 6) alice_wrote_twice 2
         \<lparr>rd_roomId = ''alice''\<rparr>)))) \<and>
   unreadCount (hd (getAllUsersWithMessages (store (fst (handle_markAsRead (env_at 6)
         alice_wrote_twice 2 \<lparr>rd_roomId = ''alice''\<rparr>))))) = 0"
proof -
  let ?rd = "\<lparr>rd_roomId = ''alice''\<rparr>"
  let ?c = "hd (getAllUsersWithMessages (store (fst (handle_markAsRead (env_at 6)
         alice_wrote_twice 2 ?rd))))"
  have h1: "map_of (connections alice_wrote_twice) 2 = Some admin"
    by code_simp
  have h2: "\<not> rejects (env_at 6) MarkMessagesAsRead"
    by code_simp
  have h3: "\<not> rejects (env_at 7) MarkMessagesAsRead"
    by code_simp
  have adm: "username admin = ''admin''"
    by code_simp
  have before: "map unreadCount (getAllUsersWithMessages (store alice_wrote_twice)) = [2]"
    by code_simp
  have mem: "?c \<in> set (getAllUsersWithMessages (store (fst (handle_markAsRead (env_at 6)
         alice_wrote_twice 2 ?rd))))"
    by code_simp
  have none_left: "length (filter (\<lambda>m. senderUsername m = c_username ?c \<and>
        receiverUsername m = ''admin'' \<and> \<not> isRead m \<and>
        \<not> (m_roomId m = rd_roomId ?rd \<and> username admin = ''admin''))
      (messages (store alice_wrote_twice))) = 0"
    by code_simp
  note c = markAsRead_idempotent [OF h1 h2 h3, of ?rd]
  from c have first: "snd (handle_markAsRead (env_at 6) alice_wrote_twice 2 ?rd) =
     [Write MarkMessagesAsRead]"
    by simp
  from c mem have "unreadCount ?c = length (filter (\<lambda>m. senderUsername m = c_username ?c \<and>
        receiverUsername m = ''admin'' \<and> \<not> isRead m \<and>
        \<not> (m_roomId m = rd_roomId ?rd \<and> username admin = ''admin''))
      (messages (store alice_wrote_twice)))"
    by blast
  with none_left have zero: "unreadCount ?c = 0"
    by simp
  from h1 h2 h3 first c [THEN conjunct2, THEN conjunct1] adm before mem zero show ?thesis
    by (intro conjI)
qed

text \<open>
  C7 as stated has the unread count of the room at 0 after each call. alice has written from
  two tabs, one joined with room \<^verbatim>\<open>alice\<close> and one with room \<^verbatim>\<open>lobby\<close>; her entry in the
  list has room \<^verbatim>\<open>alice\<close>. The admin marks room \<^verbatim>\<open>alice\<close> read, twice: after the first call
  and after the second the entry still counts one unread message.
\<close>

theorem markAsRead_unread_remains:
  "map c_roomId (getAllUsersWithMessages (store alice_two_rooms)) = [''alice''] \<and>
   map unreadCount (getAllUsersWithMessages (store alice_two_rooms)) = [2] \<and>
   map c_roomId (getAllUsersWithMessages (store (replay alice_two_rooms
     [(6, 3, MarkAsRead (Some \<lparr>rd_roomId = ''alice''\<rparr>))]))) = [''alice''] \<and>
   map unreadCount (getAllUsersWithMessages (store (replay alice_two_rooms
     [(6, 3, MarkAsRead (Some \<lparr>rd_roomId = ''alice''\<rparr>))]))) = [1] \<and>
   map unreadCount (getAllUsersWithMessages (store (replay alice_two_rooms
     [(6, 3, MarkAsRead (Some \<lparr>rd_roomId = ''alice''\<rparr>)),
      (7, 3, MarkAsRead (Some \<lparr>rd_roomId = ''alice''\<rparr>))]))) = [1]"
  by code_simp

section \<open>The conversation list\<close>

text \<open>
  C4. The claim is that \<^verbatim>\<open>getAllUsersWithMessages\<close> has an entry for every user who has
  exchanged a message with \<^verbatim>\<open>admin\<close>, with the latest message of the two and the number of
  the user's unread messages to \<^verbatim>\<open>admin\<close>. The entries that exist are as claimed
  (\<open>getAllUsersWithMessages_distinct\<close>, \<open>getAllUsersWithMessages_lastMessage\<close>,
  \<open>getAllUsersWithMessages_unreadCount\<close>), and every such user has one unless a name is
  inherited (\<open>getAllUsersWithMessages_usernames\<close>). But a user whose name is a property of
  \<^verbatim>\<open>Object.prototype\<close> gets none: the user \<^verbatim>\<open>constructor\<close> has joined and sent one message
  to \<^verbatim>\<open>admin\<close>, the message is stored and unread, and the list is empty. (The callback finds
  \<^verbatim>\<open>acc["constructor"]\<close> truthy, creates no entry and writes the message and the count to
  the inherited function.)
\<close>

theorem no_entry_for_prototype_name:
  "map senderUsername (messages (store constructor_wrote)) = [''constructor''] \<and>
   map receiverUsername (messages (store constructor_wrote)) = [''admin''] \<and>
   map isRead (messages (store constructor_wrote)) = [False] \<and>
   getAllUsersWithMessages (store constructor_wrote) = []"
  by code_simp

end
